theory Spec2Isabelle
  imports Main
begin

section \<open>Errors (src/utils/ApiError.js)\<close>

text \<open>
  An \<open>ApiError\<close> carries the HTTP status code, the message and the \<open>isOperational\<close> flag.
  The other constructors are the errors that are not instances of \<open>ApiError\<close>, each
  with its message: the two raised by \<open>jwt.verify\<close>, the validation error of a
  \<open>save()\<close>, and \<open>Error\<close> for the plain \<open>new Error()\<close> of the services and for what
  \<open>sendEmail\<close> rethrows when the transport fails.
\<close>

datatype error =
    ApiError nat string bool
  | JsonWebTokenError string
  | TokenExpiredError string
  | MongooseValidationError string
  | Error string

definition NotFoundError :: "string \<Rightarrow> error" where
  "NotFoundError m = ApiError 404 m True"

definition BadRequestError :: "string \<Rightarrow> error" where
  "BadRequestError m = ApiError 400 m True"

definition UnauthorizedError :: "string \<Rightarrow> error" where
  "UnauthorizedError m = ApiError 401 m True"

definition ForbiddenError :: "string \<Rightarrow> error" where
  "ForbiddenError m = ApiError 403 m True"

definition ConflictError :: "string \<Rightarrow> error" where
  "ConflictError m = ApiError 409 m True"

section \<open>Time and configuration\<close>

text \<open>
  A clock reading is a number of milliseconds since the epoch (\<open>moment()\<close>, \<open>Date\<close>);
  \<open>unix\<close> is \<open>moment.unix()\<close>, the whole seconds. Every service call reads the clock
  once: the model passes that reading as \<open>now\<close>. \<open>add(n, 'minutes')\<close> adds a duration;
  \<open>add(n, 'days')\<close> adds calendar days in the time zone of the process, an hour more or
  less than \<open>n\<close> times 24 hours across a change of daylight saving time: what it
  returns is the field \<open>add_days\<close> of the configuration, a parameter.
\<close>

type_synonym time = nat

definition unix :: "time \<Rightarrow> nat" where
  "unix t = t div 1000"

definition add_minutes :: "time \<Rightarrow> nat \<Rightarrow> time" where
  "add_minutes t n = t + n * 60000"

record config =
  env :: string
  jwt_secret :: string
  accessExpirationMinutes :: nat
  refreshExpirationDays :: nat
  resetPasswordExpirationMinutes :: nat
  verifyEmailExpirationMinutes :: nat
  add_days :: "time \<Rightarrow> nat \<Rightarrow> time"

section \<open>Token model (models/token.model.js)\<close>

datatype tokenType = ACCESS | REFRESH | RESET_PASSWORD | VERIFY_EMAIL

record payload =
  sub :: string
  iat :: nat
  exp :: nat
  jwt_type :: tokenType

text \<open>
  The library \<open>jsonwebtoken\<close> is outside the repository. A token string is modelled
  symbolically: \<open>jwt.sign\<close> is a function of the payload and the secret (HS256 signing
  of a payload that carries its own \<open>iat\<close> has no other input), and the payload can be
  read back from the string. Every other string is \<open>Malformed\<close>. \<open>jwt.verify\<close>
  checks the signature and then the \<open>exp\<close> claim against the clock in seconds.
\<close>

datatype jwt = Signed payload string | Malformed string

definition jwt_sign :: "payload \<Rightarrow> string \<Rightarrow> jwt" where
  "jwt_sign p secret = Signed p secret"

definition jwt_verify :: "jwt \<Rightarrow> string \<Rightarrow> time \<Rightarrow> error + payload" where
  "jwt_verify tok secret now =
     (case tok of
        Malformed _ \<Rightarrow> Inl (JsonWebTokenError ''jwt malformed'')
      | Signed p k \<Rightarrow>
          if k \<noteq> secret then Inl (JsonWebTokenError ''invalid signature'')
          else if exp p \<le> unix now then Inl (TokenExpiredError ''jwt expired'')
          else Inr p)"

text \<open>
  A ledger document. \<open>doc_id\<close> is the \<open>_id\<close> that the store gives each document;
  the schema puts a plain index on \<open>token\<close> and no uniqueness constraint.
\<close>

record tokenDoc =
  doc_id :: nat
  token :: jwt
  user :: string
  type :: tokenType
  expires :: time
  blacklisted :: bool

section \<open>User documents\<close>

datatype role = RoleUser | RoleAdmin | RoleModerator

datatype pw = Plain string | Hashed string

datatype json =
    JString string
  | JBool bool
  | JNumber int
  | JNull
  | JArray "json list"
  | JObject "(string \<times> json) list"

text \<open>
  The record holds the attributes the spec lists for a user; \<open>other\<close> holds the
  remaining paths of the document. A role is one of the keys of the role table.
  \<open>password\<close> is \<open>Plain\<close> only between an assignment and the save that hashes it.
  A request body is an association list, with distinct keys as an object has.
\<close>

record userDoc =
  uid :: string
  email :: string
  password :: pw
  role :: role
  isActive :: bool
  isEmailVerified :: bool
  passwordChangedAt :: "time option"
  lastLogin :: "time option"
  other :: "(string \<times> json) list"

section \<open>The store\<close>

record mail =
  mail_to :: string
  mail_subject :: string
  mail_token :: "jwt option"

record db =
  users :: "userDoc list"
  tokens :: "tokenDoc list"
  next_id :: nat
  outbox :: "mail list"

text \<open>
  Mongoose queries on the Token collection. A collection is the list of its documents in
  insertion order; \<open>findOne\<close> returns the first document that matches.
\<close>

definition Token_create ::
  "jwt \<Rightarrow> string \<Rightarrow> time \<Rightarrow> tokenType \<Rightarrow> bool \<Rightarrow> db \<Rightarrow> tokenDoc \<times> db" where
  "Token_create tok userId expiry ty bl s =
     (let d = \<lparr>doc_id = next_id s, token = tok, user = userId, type = ty,
                expires = expiry, blacklisted = bl\<rparr>
      in (d, s\<lparr>tokens := tokens s @ [d], next_id := Suc (next_id s)\<rparr>))"

definition Token_findOne :: "(tokenDoc \<Rightarrow> bool) \<Rightarrow> db \<Rightarrow> tokenDoc option" where
  "Token_findOne q s = find q (tokens s)"

definition Token_deleteMany :: "(tokenDoc \<Rightarrow> bool) \<Rightarrow> db \<Rightarrow> db" where
  "Token_deleteMany q s = s\<lparr>tokens := filter (\<lambda>d. \<not> q d) (tokens s)\<rparr>"

text \<open>\<open>doc.deleteOne()\<close> removes the document with the \<open>_id\<close> of \<open>doc\<close>, if it is still there.\<close>

definition deleteOne :: "tokenDoc \<Rightarrow> db \<Rightarrow> db" where
  "deleteOne d s = s\<lparr>tokens := filter (\<lambda>x. doc_id x \<noteq> doc_id d) (tokens s)\<rparr>"

section \<open>Token service (src/services/token.service.js)\<close>

definition generateToken :: "config \<Rightarrow> time \<Rightarrow> string \<Rightarrow> time \<Rightarrow> tokenType \<Rightarrow> jwt" where
  "generateToken cfg now userId expiry ty =
     jwt_sign \<lparr>sub = userId, iat = unix now, exp = unix expiry, jwt_type = ty\<rparr> (jwt_secret cfg)"

definition saveToken ::
  "jwt \<Rightarrow> string \<Rightarrow> time \<Rightarrow> tokenType \<Rightarrow> bool \<Rightarrow> db \<Rightarrow> tokenDoc \<times> db" where
  "saveToken tok userId expiry ty bl s = Token_create tok userId expiry ty bl s"

text \<open>The filter of the ledger query inside \<open>verifyToken\<close>.\<close>

definition verifyToken_query :: "jwt \<Rightarrow> tokenType \<Rightarrow> string \<Rightarrow> tokenDoc \<Rightarrow> bool" where
  "verifyToken_query tok ty userId d \<longleftrightarrow>
     token d = tok \<and> type d = ty \<and> user d = userId \<and> blacklisted d = False"

definition verifyToken :: "config \<Rightarrow> time \<Rightarrow> jwt \<Rightarrow> tokenType \<Rightarrow> db \<Rightarrow> error + tokenDoc" where
  "verifyToken cfg now tok ty s =
     (case jwt_verify tok (jwt_secret cfg) now of
        Inl e \<Rightarrow> Inl e
      | Inr p \<Rightarrow>
          (case Token_findOne (verifyToken_query tok ty (sub p)) s of
             None \<Rightarrow> Inl (UnauthorizedError ''Token not found'')
           | Some d \<Rightarrow> Inr d))"

record tokenInfo =
  tok :: jwt
  tok_expires :: time

record authTokens =
  access :: tokenInfo
  refresh :: tokenInfo

definition generateAuthTokens :: "config \<Rightarrow> time \<Rightarrow> userDoc \<Rightarrow> db \<Rightarrow> authTokens \<times> db" where
  "generateAuthTokens cfg now u s =
     (let accessTokenExpires = add_minutes now (accessExpirationMinutes cfg);
          accessToken = generateToken cfg now (uid u) accessTokenExpires ACCESS;
          refreshTokenExpires = add_days cfg now (refreshExpirationDays cfg);
          refreshToken = generateToken cfg now (uid u) refreshTokenExpires REFRESH;
          (d, s') = saveToken refreshToken (uid u) refreshTokenExpires REFRESH False s
      in (\<lparr>access = \<lparr>tok = accessToken, tok_expires = accessTokenExpires\<rparr>,
           refresh = \<lparr>tok = refreshToken, tok_expires = refreshTokenExpires\<rparr>\<rparr>, s'))"

definition generateResetPasswordToken :: "config \<Rightarrow> time \<Rightarrow> string \<Rightarrow> db \<Rightarrow> jwt \<times> db" where
  "generateResetPasswordToken cfg now userId s =
     (let expiry = add_minutes now (resetPasswordExpirationMinutes cfg);
          resetPasswordToken = generateToken cfg now userId expiry RESET_PASSWORD;
          (d, s') = saveToken resetPasswordToken userId expiry RESET_PASSWORD False s
      in (resetPasswordToken, s'))"

section \<open>Scheduled cleanup (src/jobs/cron-runner.js)\<close>

text \<open>The daily job that deletes the records whose expiry lies before the clock reading.\<close>

definition cleanupExpiredTokens :: "time \<Rightarrow> db \<Rightarrow> db" where
  "cleanupExpiredTokens now s = Token_deleteMany (\<lambda>d. expires d < now) s"

section \<open>User store\<close>

text \<open>Mongoose queries on the User collection; \<open>_id\<close> is unique in a collection.\<close>

definition User_findById :: "string \<Rightarrow> db \<Rightarrow> userDoc option" where
  "User_findById i s = find (\<lambda>u. uid u = i) (users s)"

definition User_findOne_email :: "string \<Rightarrow> db \<Rightarrow> userDoc option" where
  "User_findOne_email e s = find (\<lambda>u. email u = e) (users s)"

fun replace_user :: "userDoc \<Rightarrow> userDoc list \<Rightarrow> userDoc list" where
  "replace_user u [] = []"
| "replace_user u (x # xs) = (if uid x = uid u then u # xs else x # replace_user u xs)"

text \<open>
  Modelled from the spec: the schema method \<open>comparePassword\<close> of the user model
  (models/user.model.js), which the services call and the sources do not hold. The spec
  has "verifyPassword(user, candidate): comparison against stored hash"; the hash is
  symbolic, \<open>Hashed v\<close> for the plain text \<open>v\<close>.
\<close>

definition comparePassword :: "userDoc \<Rightarrow> string \<Rightarrow> bool" where
  "comparePassword u candidate \<longleftrightarrow> password u = Hashed candidate"

text \<open>
  Modelled from the spec: the pre-save hook of the user model, which the sources do not
  hold. The spec has "hashes password before persisting" and "password change (bumps
  password changed at)": a document whose password differs from the stored one is saved
  with the password hashed and the timestamp set to the clock reading.
\<close>

definition hash_pw :: "pw \<Rightarrow> pw" where
  "hash_pw p = (case p of Plain v \<Rightarrow> Hashed v | Hashed h \<Rightarrow> Hashed h)"

definition isModified_password :: "userDoc \<Rightarrow> db \<Rightarrow> bool" where
  "isModified_password u s =
     (case User_findById (uid u) s of
        None \<Rightarrow> True
      | Some stored \<Rightarrow> password u \<noteq> password stored)"

definition preSave :: "time \<Rightarrow> db \<Rightarrow> userDoc \<Rightarrow> userDoc" where
  "preSave now s u =
     (if isModified_password u s
      then u\<lparr>password := hash_pw (password u), passwordChangedAt := Some now\<rparr>
      else u)"


text \<open>
  Modelled from the spec: the static \<open>isEmailTaken\<close> of the user model, which the
  sources do not hold. The spec has "email uniqueness enforced at the store layer"; the
  second argument is the id of the user left out of the search.
\<close>

definition isEmailTaken :: "string \<Rightarrow> string \<Rightarrow> db \<Rightarrow> bool" where
  "isEmailTaken e excludeUserId s \<longleftrightarrow>
     list_ex (\<lambda>u. email u = e \<and> uid u \<noteq> excludeUserId) (users s)"

text \<open>
  \<open>user.save()\<close> validates the document against the schema, runs the pre-save hook and
  writes the document back. The schema's validators are a parameter \<open>valid\<close>;
  \<open>save({ validateBeforeSave: false })\<close> skips them.
\<close>

definition User_save_unvalidated :: "time \<Rightarrow> userDoc \<Rightarrow> db \<Rightarrow> db" where
  "User_save_unvalidated now u s = s\<lparr>users := replace_user (preSave now s u) (users s)\<rparr>"

definition User_save :: "(userDoc \<Rightarrow> bool) \<Rightarrow> time \<Rightarrow> userDoc \<Rightarrow> db \<Rightarrow> (error + userDoc) \<times> db" where
  "User_save valid now u s =
     (if valid u then (Inr (preSave now s u), User_save_unvalidated now u s)
      else (Inl (MongooseValidationError ''User validation failed''), s))"

section \<open>Email service (src/services/email.service.js)\<close>

text \<open>
  The SMTP transport is a parameter: \<open>None\<close> when it accepts the message, the error's
  message when \<open>transporter.sendMail\<close> rejects. \<open>sendEmail\<close> logs and rethrows.
\<close>

type_synonym transport = "mail \<Rightarrow> string option"

definition sendEmail :: "transport \<Rightarrow> mail \<Rightarrow> db \<Rightarrow> (error + unit) \<times> db" where
  "sendEmail smtp msg s =
     (case smtp msg of
        None \<Rightarrow> (Inr (), s\<lparr>outbox := outbox s @ [msg]\<rparr>)
      | Some m \<Rightarrow> (Inl (Error m), s))"

definition sendResetPasswordEmail :: "transport \<Rightarrow> string \<Rightarrow> jwt \<Rightarrow> db \<Rightarrow> (error + unit) \<times> db" where
  "sendResetPasswordEmail smtp to t s =
     sendEmail smtp \<lparr>mail_to = to, mail_subject = ''Reset Your Password'', mail_token = Some t\<rparr> s"

section \<open>Auth service (src/services/auth.service.js)\<close>

definition login :: "time \<Rightarrow> string \<Rightarrow> string \<Rightarrow> db \<Rightarrow> (error + userDoc) \<times> db" where
  "login now e p s =
     (case User_findOne_email e s of
        None \<Rightarrow> (Inl (UnauthorizedError ''Incorrect email or password''), s)
      | Some u \<Rightarrow>
          if \<not> comparePassword u p
          then (Inl (UnauthorizedError ''Incorrect email or password''), s)
          else if \<not> isActive u
          then (Inl (UnauthorizedError ''Your account has been deactivated''), s)
          else (Inr (u\<lparr>lastLogin := Some now\<rparr>),
                User_save_unvalidated now (u\<lparr>lastLogin := Some now\<rparr>) s))"

text \<open>
  \<open>refreshAuth\<close>: every error of the \<open>try\<close> block becomes the same Unauthorized error.
  The block fails only before its first write.
\<close>

definition refreshAuth :: "config \<Rightarrow> time \<Rightarrow> jwt \<Rightarrow> db \<Rightarrow> (error + authTokens) \<times> db" where
  "refreshAuth cfg now refreshToken s =
     (case verifyToken cfg now refreshToken REFRESH s of
        Inl e \<Rightarrow> (Inl (UnauthorizedError ''Please authenticate''), s)
      | Inr refreshTokenDoc \<Rightarrow>
          (case User_findById (user refreshTokenDoc) s of
             None \<Rightarrow> (Inl (UnauthorizedError ''Please authenticate''), s)
           | Some u \<Rightarrow>
               (let (t, s') = generateAuthTokens cfg now u (deleteOne refreshTokenDoc s)
                in (Inr t, s'))))"

definition resetPassword ::
  "(userDoc \<Rightarrow> bool) \<Rightarrow> config \<Rightarrow> time \<Rightarrow> jwt \<Rightarrow> string \<Rightarrow> db \<Rightarrow> (error + unit) \<times> db" where
  "resetPassword valid cfg now resetPasswordToken newPassword s =
     (case verifyToken cfg now resetPasswordToken RESET_PASSWORD s of
        Inl e \<Rightarrow> (Inl (UnauthorizedError ''Password reset failed''), s)
      | Inr resetPasswordTokenDoc \<Rightarrow>
          (case User_findById (user resetPasswordTokenDoc) s of
             None \<Rightarrow> (Inl (UnauthorizedError ''Password reset failed''), s)
           | Some u \<Rightarrow>
               (case User_save valid now (u\<lparr>password := Plain newPassword\<rparr>) s of
                  (Inl e, s') \<Rightarrow> (Inl (UnauthorizedError ''Password reset failed''), s')
                | (Inr u', s') \<Rightarrow>
                    (Inr (),
                     Token_deleteMany (\<lambda>d. user d = uid u' \<and> type d = REFRESH)
                       (Token_deleteMany (\<lambda>d. user d = uid u' \<and> type d = RESET_PASSWORD) s')))))"

definition forgotPassword :: "config \<Rightarrow> transport \<Rightarrow> time \<Rightarrow> string \<Rightarrow> db \<Rightarrow> (error + unit) \<times> db" where
  "forgotPassword cfg smtp now e s =
     (case User_findOne_email e s of
        None \<Rightarrow> (Inr (), s)
      | Some u \<Rightarrow>
          (let (resetPasswordToken, s') = generateResetPasswordToken cfg now (uid u) s
           in sendResetPasswordEmail smtp e resetPasswordToken s'))"

definition changePassword ::
  "(userDoc \<Rightarrow> bool) \<Rightarrow> time \<Rightarrow> string \<Rightarrow> string \<Rightarrow> string \<Rightarrow> db \<Rightarrow> (error + unit) \<times> db" where
  "changePassword valid now userId currentPassword newPassword s =
     (case User_findById userId s of
        None \<Rightarrow> (Inl (BadRequestError ''Current password is incorrect''), s)
      | Some u \<Rightarrow>
          if \<not> comparePassword u currentPassword
          then (Inl (BadRequestError ''Current password is incorrect''), s)
          else (case User_save valid now (u\<lparr>password := Plain newPassword\<rparr>) s of
                  (Inl e, s') \<Rightarrow> (Inl e, s')
                | (Inr u', s') \<Rightarrow>
                    (Inr (), Token_deleteMany (\<lambda>d. user d = uid u' \<and> type d = REFRESH) s')))"

section \<open>The steps of a rotation\<close>

text \<open>
  \<open>refreshAuth\<close> is an async function: each \<open>await\<close> of a store operation is one step,
  and the steps of other requests may run between two of them. The control points are
  the four awaits of the \<open>try\<close> block: the ledger lookup of \<open>verifyToken\<close>,
  \<open>User.findById\<close>, \<open>refreshTokenDoc.deleteOne()\<close> and the \<open>Token.create\<close> of
  \<open>generateAuthTokens\<close>.
\<close>

datatype refresh_pc =
    AtVerify
  | AtFindUser tokenDoc
  | AtDelete tokenDoc userDoc
  | AtGenerate userDoc
  | Finished "error + authTokens"

fun refreshAuth_step :: "config \<Rightarrow> time \<Rightarrow> jwt \<Rightarrow> refresh_pc \<Rightarrow> db \<Rightarrow> refresh_pc \<times> db" where
  "refreshAuth_step cfg now refreshToken AtVerify s =
     (case verifyToken cfg now refreshToken REFRESH s of
        Inl e \<Rightarrow> (Finished (Inl (UnauthorizedError ''Please authenticate'')), s)
      | Inr d \<Rightarrow> (AtFindUser d, s))"
| "refreshAuth_step cfg now refreshToken (AtFindUser d) s =
     (case User_findById (user d) s of
        None \<Rightarrow> (Finished (Inl (UnauthorizedError ''Please authenticate'')), s)
      | Some u \<Rightarrow> (AtDelete d u, s))"
| "refreshAuth_step cfg now refreshToken (AtDelete d u) s = (AtGenerate u, deleteOne d s)"
| "refreshAuth_step cfg now refreshToken (AtGenerate u) s =
     (let (t, s') = generateAuthTokens cfg now u s in (Finished (Inr t), s'))"
| "refreshAuth_step cfg now refreshToken (Finished r) s = (Finished r, s)"

text \<open>
  Two requests \<open>A\<close> and \<open>B\<close> present the same refresh token; a schedule says whose step
  runs next (\<open>True\<close> for \<open>A\<close>).
\<close>

fun run_two ::
  "config \<Rightarrow> time \<Rightarrow> time \<Rightarrow> jwt \<Rightarrow> bool list \<Rightarrow> refresh_pc \<times> refresh_pc \<times> db
     \<Rightarrow> refresh_pc \<times> refresh_pc \<times> db" where
  "run_two cfg nowA nowB t [] st = st"
| "run_two cfg nowA nowB t (True # sched) (a, b, s) =
     (let (a', s') = refreshAuth_step cfg nowA t a s in run_two cfg nowA nowB t sched (a', b, s'))"
| "run_two cfg nowA nowB t (False # sched) (a, b, s) =
     (let (b', s') = refreshAuth_step cfg nowB t b s in run_two cfg nowA nowB t sched (a, b', s'))"

definition succeeded :: "refresh_pc \<Rightarrow> bool" where
  "succeeded pc = (case pc of Finished (Inr t) \<Rightarrow> True | _ \<Rightarrow> False)"

text \<open>
  A schedule in which both lookups run before the deletions, and each request is given
  its four steps: the lookup is the first step of a request and the deletion its third,
  so at most two steps of one request come before the first step of the other.
\<close>

definition lookups_before_deletes :: "bool list \<Rightarrow> bool" where
  "lookups_before_deletes sched \<longleftrightarrow>
     length (takeWhile (\<lambda>x. x) sched) \<le> 2 \<and> length (takeWhile (\<lambda>x. \<not> x) sched) \<le> 2
     \<and> 4 \<le> length (filter (\<lambda>x. x) sched) \<and> 4 \<le> length (filter (\<lambda>x. \<not> x) sched)"

text \<open>
  Two notions for the proofs about schedules: the number of steps a request has taken,
  and the control points from which a request ends with a new pair whatever the other
  request does (the lookup has found a record and the user of the record exists).
\<close>

fun phase :: "refresh_pc \<Rightarrow> nat" where
  "phase AtVerify = 0"
| "phase (AtFindUser d) = 1"
| "phase (AtDelete d u) = 2"
| "phase (AtGenerate u) = 3"
| "phase (Finished r) = 4"

fun committed :: "userDoc list \<Rightarrow> refresh_pc \<Rightarrow> bool" where
  "committed us AtVerify = False"
| "committed us (AtFindUser d) = (find (\<lambda>u. uid u = user d) us \<noteq> None)"
| "committed us (AtDelete d u) = True"
| "committed us (AtGenerate u) = True"
| "committed us (Finished r) = (\<not> isl r)"

section \<open>Auth middleware (middlewares/auth.middleware.js)\<close>

text \<open>
  The \<open>Authorization\<close> header as \<open>split(' ')\<close> sees it: the text before the first space,
  and the piece after it when there is one and it is not empty.
\<close>

datatype header = Header string "jwt option"

record request =
  authorization :: "header option"
  cookies_accessToken :: "jwt option"
  params_userId :: "string option"
  req_user :: "userDoc option"
  body :: "(string \<times> json) list"




text \<open>The role table (config/roles.js).\<close>

fun roleRights :: "role \<Rightarrow> string list" where
  "roleRights RoleUser = [''getProducts'', ''manageOwnProfile'', ''createOrder'', ''viewOwnOrders'']"
| "roleRights RoleAdmin =
     [''getUsers'', ''manageUsers'', ''getProducts'', ''manageProducts'', ''getOrders'',
      ''manageOrders'', ''manageOwnProfile'', ''createOrder'', ''viewOwnOrders'',
      ''viewAnalytics'', ''manageSettings'']"
| "roleRights RoleModerator =
     [''getUsers'', ''getProducts'', ''manageProducts'', ''getOrders'', ''manageOwnProfile'',
      ''viewOwnOrders'']"

definition authorize :: "string list \<Rightarrow> request \<Rightarrow> error + request" where
  "authorize requiredRights req =
     (case req_user req of
        None \<Rightarrow> Inl (UnauthorizedError ''Please authenticate first.'')
      | Some u \<Rightarrow>
          if length requiredRights = 0 then Inr req
          else
            (let userRights = roleRights (role u);
                 hasRequiredRights = list_all (\<lambda>right. right \<in> set userRights) requiredRights
             in if \<not> hasRequiredRights \<and> params_userId req \<noteq> Some (uid u)
                then Inl (ForbiddenError ''You do not have permission to perform this action.'')
                else Inr req))"

section \<open>User service (src/services/user.service.js)\<close>

definition getUserById :: "string \<Rightarrow> db \<Rightarrow> error + userDoc" where
  "getUserById i s =
     (case User_findById i s of
        None \<Rightarrow> Inl (NotFoundError ''User not found'')
      | Some u \<Rightarrow> Inr u)"

text \<open>JavaScript truthiness of a body value.\<close>

fun truthy :: "json \<Rightarrow> bool" where
  "truthy (JString v) = (v \<noteq> [])"
| "truthy (JBool b) = b"
| "truthy (JNumber n) = (n \<noteq> 0)"
| "truthy JNull = False"
| "truthy (JArray vs) = True"
| "truthy (JObject kvs) = True"

definition role_of_string :: "string \<Rightarrow> role option" where
  "role_of_string v =
     (if v = ''user'' then Some RoleUser
      else if v = ''admin'' then Some RoleAdmin
      else if v = ''moderator'' then Some RoleModerator
      else None)"

text \<open>
  \<open>Object.assign(user, updateBody)\<close> sets each key of the body on the document, in
  order. A value of the path's type sets the path: a string the email, the password and
  the role, a boolean the two flags, a number of milliseconds or \<open>null\<close> the two dates.
  Any other key or value, a nested object or an array among them, is kept whole under
  \<open>other\<close>, for the casts and validators of the schema to judge at the save.
\<close>

definition set_other :: "string \<Rightarrow> json \<Rightarrow> userDoc \<Rightarrow> userDoc" where
  "set_other k v u = u\<lparr>other := filter (\<lambda>kv. fst kv \<noteq> k) (other u) @ [(k, v)]\<rparr>"

fun assign_path :: "string \<Rightarrow> json \<Rightarrow> userDoc \<Rightarrow> userDoc" where
  "assign_path k (JString v) u =
     (if k = ''email'' then u\<lparr>email := v\<rparr>
      else if k = ''password'' then u\<lparr>password := Plain v\<rparr>
      else if k = ''role'' then
        (case role_of_string v of Some r \<Rightarrow> u\<lparr>role := r\<rparr> | None \<Rightarrow> set_other k (JString v) u)
      else set_other k (JString v) u)"
| "assign_path k (JBool b) u =
     (if k = ''isActive'' then u\<lparr>isActive := b\<rparr>
      else if k = ''isEmailVerified'' then u\<lparr>isEmailVerified := b\<rparr>
      else set_other k (JBool b) u)"
| "assign_path k (JNumber n) u =
     (if k = ''lastLogin'' \<and> 0 \<le> n then u\<lparr>lastLogin := Some (nat n)\<rparr>
      else if k = ''passwordChangedAt'' \<and> 0 \<le> n then u\<lparr>passwordChangedAt := Some (nat n)\<rparr>
      else set_other k (JNumber n) u)"
| "assign_path k JNull u =
     (if k = ''lastLogin'' then u\<lparr>lastLogin := None\<rparr>
      else if k = ''passwordChangedAt'' then u\<lparr>passwordChangedAt := None\<rparr>
      else set_other k JNull u)"
| "assign_path k v u = set_other k v u"

fun Object_assign :: "userDoc \<Rightarrow> (string \<times> json) list \<Rightarrow> userDoc" where
  "Object_assign u [] = u"
| "Object_assign u ((k, v) # kvs) = Object_assign (assign_path k v u) kvs"

text \<open>
  \<open>updateUserById\<close>: the email of the body is looked up when it is truthy; a value that
  is not a string equals no stored email.
\<close>

definition updateUserById ::
  "(userDoc \<Rightarrow> bool) \<Rightarrow> time \<Rightarrow> string \<Rightarrow> (string \<times> json) list \<Rightarrow> db \<Rightarrow> (error + userDoc) \<times> db" where
  "updateUserById valid now userId updateBody s =
     (case getUserById userId s of
        Inl e \<Rightarrow> (Inl e, s)
      | Inr u \<Rightarrow>
          (case map_of updateBody ''email'' of
             Some (JString e) \<Rightarrow>
               if truthy (JString e) \<and> isEmailTaken e userId s
               then (Inl (ConflictError ''Email already taken''), s)
               else User_save valid now (Object_assign u updateBody) s
           | _ \<Rightarrow> User_save valid now (Object_assign u updateBody) s))"

section \<open>Error middleware and controllers\<close>

record response =
  status :: nat
  success :: bool
  message :: string

text \<open>
  \<open>errorConverter\<close> and \<open>errorHandler\<close> (src/middlewares/error.middleware.js), as they
  act on what a controller passes to \<open>next\<close>; an error without a \<open>statusCode\<close> has the
  code 0 here. The response body's \<open>stack\<close> and \<open>error\<close> of the development
  environment are left out.
\<close>

definition error_message :: "error \<Rightarrow> string" where
  "error_message e =
     (case e of
        ApiError c m op \<Rightarrow> m
      | JsonWebTokenError m \<Rightarrow> m
      | TokenExpiredError m \<Rightarrow> m
      | MongooseValidationError m \<Rightarrow> m
      | Error m \<Rightarrow> m)"

definition errorConverter :: "error \<Rightarrow> error" where
  "errorConverter err =
     (case err of
        ApiError c m op \<Rightarrow> err
      | MongooseValidationError m \<Rightarrow>
          ApiError 400 (if m = [] then ''Something went wrong'' else m) False
      | _ \<Rightarrow>
          ApiError 500 (if error_message err = [] then ''Something went wrong''
                        else error_message err) False)"

definition errorHandler :: "config \<Rightarrow> error \<Rightarrow> response" where
  "errorHandler cfg err =
     (let (c, m, op) =
            (case err of
               ApiError c m op \<Rightarrow> (c, m, op)
             | MongooseValidationError m \<Rightarrow> (400, m, False)
             | _ \<Rightarrow> (0, error_message err, False));
          statusCode = (if c = 0 then 500 else c);
          msg = (if m = [] then ''Internal server error'' else m)
      in if env cfg = ''production'' \<and> \<not> op
         then \<lparr>status = 500, success = False, message = ''Internal server error''\<rparr>
         else \<lparr>status = statusCode, success = False, message = msg\<rparr>)"

text \<open>The \<open>forgotPassword\<close> handler of src/controllers/auth.controller.js under \<open>catchAsync\<close>.\<close>

definition forgotPassword_controller ::
  "config \<Rightarrow> transport \<Rightarrow> time \<Rightarrow> string \<Rightarrow> db \<Rightarrow> response \<times> db" where
  "forgotPassword_controller cfg smtp now e s =
     (case forgotPassword cfg smtp now e s of
        (Inl err, s') \<Rightarrow> (errorHandler cfg (errorConverter err), s')
      | (Inr _, s') \<Rightarrow>
          (\<lparr>status = 200, success = True,
            message = ''If an account exists with this email, a password reset link has been sent.''\<rparr>,
           s'))"

text \<open>
  The \<open>updateMe\<close> handler: the rest pattern of the destructuring keeps every key of the
  body but the four named ones.
\<close>

definition updateData_of :: "(string \<times> json) list \<Rightarrow> (string \<times> json) list" where
  "updateData_of b =
     filter (\<lambda>kv. fst kv \<notin> {''password'', ''role'', ''isActive'', ''isEmailVerified''}) b"

definition updateMe ::
  "(userDoc \<Rightarrow> bool) \<Rightarrow> time \<Rightarrow> request \<Rightarrow> db \<Rightarrow> (error + userDoc) \<times> db" where
  "updateMe valid now req s =
     (case req_user req of
        None \<Rightarrow> (Inl (Error ''Cannot read properties of undefined''), s)
      | Some u \<Rightarrow> updateUserById valid now (uid u) (updateData_of (body req)) s)"

section \<open>A concrete store\<close>

text \<open>
  The process of \<open>cfg0\<close> runs in UTC: a calendar day is 24 hours.
  One registered user, \<open>alice\<close>, who logs in at clock reading 1000: \<open>db1\<close> is the store
  after the \<open>generateAuthTokens\<close> of that login and \<open>token0\<close> the refresh token it
  returned.
\<close>

definition cfg0 :: config where
  "cfg0 = \<lparr>env = ''production'', jwt_secret = ''k'', accessExpirationMinutes = 30,
            refreshExpirationDays = 30, resetPasswordExpirationMinutes = 10,
            verifyEmailExpirationMinutes = 10,
            add_days = (\<lambda>t n. t + n * 86400000)\<rparr>"

definition alice :: userDoc where
  "alice = \<lparr>uid = ''u1'', email = ''a@x.com'', password = Hashed ''abc12345'', role = RoleUser,
             isActive = True, isEmailVerified = False, passwordChangedAt = None,
             lastLogin = None, other = []\<rparr>"

definition db0 :: db where
  "db0 = \<lparr>users = [alice], tokens = [], next_id = 0, outbox = []\<rparr>"

definition token0 :: jwt where
  "token0 = Signed \<lparr>sub = ''u1'', iat = 1, exp = 2592001, jwt_type = REFRESH\<rparr> ''k''"

definition access0 :: jwt where
  "access0 = Signed \<lparr>sub = ''u1'', iat = 1, exp = 1801, jwt_type = ACCESS\<rparr> ''k''"

definition doc0 :: tokenDoc where
  "doc0 = \<lparr>doc_id = 0, token = token0, user = ''u1'', type = REFRESH,
            expires = 2592001000, blacklisted = False\<rparr>"

definition db1 :: db where
  "db1 = \<lparr>users = [alice], tokens = [doc0], next_id = 1, outbox = []\<rparr>"

text \<open>
  \<open>db1r\<close> is \<open>db1\<close> after \<open>generateResetPasswordToken\<close> for \<open>alice\<close> at clock reading
  1000, and \<open>reset0\<close> the reset token it returned.
\<close>

definition reset0 :: jwt where
  "reset0 = Signed \<lparr>sub = ''u1'', iat = 1, exp = 601, jwt_type = RESET_PASSWORD\<rparr> ''k''"

definition db1r :: db where
  "db1r = \<lparr>users = [alice],
            tokens = [doc0, \<lparr>doc_id = 1, token = reset0, user = ''u1'', type = RESET_PASSWORD,
                             expires = 601000, blacklisted = False\<rparr>],
            next_id = 2, outbox = []\<rparr>"

definition req0 :: request where
  "req0 = \<lparr>authorization = Some (Header ''Bearer'' (Some access0)), cookies_accessToken = None,
            params_userId = None, req_user = None, body = []\<rparr>"

definition req1 :: request where
  "req1 = \<lparr>authorization = Some (Header ''Bearer'' (Some access0)), cookies_accessToken = None,
            params_userId = None, req_user = Some alice,
            body = [(''role'', JString ''admin''), (''name'', JString ''Al''),
                    (''isActive'', JBool False)]\<rparr>"

definition any_valid :: "userDoc \<Rightarrow> bool" where
  "any_valid u = True"

text \<open>
  \<open>alice\<close> changes her password at clock reading 1200, which leaves \<open>db_changed\<close>, and
  logs in again at 1500, which leaves \<open>db_relogin\<close> after the \<open>generateAuthTokens\<close> of
  that login.
\<close>

definition alice_changed :: userDoc where
  "alice_changed = alice\<lparr>password := Hashed ''newpass99'', passwordChangedAt := Some 1200\<rparr>"

definition db_changed :: db where
  "db_changed = \<lparr>users = [alice_changed], tokens = [], next_id = 1, outbox = []\<rparr>"

definition alice_relogin :: userDoc where
  "alice_relogin = alice_changed\<lparr>lastLogin := Some 1500\<rparr>"

definition db_relogin :: db where
  "db_relogin = \<lparr>users = [alice_relogin],
                  tokens = [\<lparr>doc_id = 1, token = token0, user = ''u1'', type = REFRESH,
                             expires = 2592001500, blacklisted = False\<rparr>],
                  next_id = 2, outbox = []\<rparr>"

text \<open>The pair and the store that a rotation of \<open>token0\<close> at clock reading 2000 gives.\<close>

definition token2 :: jwt where
  "token2 = Signed \<lparr>sub = ''u1'', iat = 2, exp = 2592002, jwt_type = REFRESH\<rparr> ''k''"

definition pair2 :: authTokens where
  "pair2 = \<lparr>access = \<lparr>tok = Signed \<lparr>sub = ''u1'', iat = 2, exp = 1802, jwt_type = ACCESS\<rparr> ''k'',
                       tok_expires = 1802000\<rparr>,
            refresh = \<lparr>tok = token2, tok_expires = 2592002000\<rparr>\<rparr>"

definition db2 :: db where
  "db2 = \<lparr>users = [alice],
           tokens = [\<lparr>doc_id = 1, token = token2, user = ''u1'', type = REFRESH,
                      expires = 2592002000, blacklisted = False\<rparr>],
           next_id = 2, outbox = []\<rparr>"

section \<open>Evaluation of the concrete store\<close>

lemmas example_defs = cfg0_def alice_def db0_def token0_def access0_def doc0_def db1_def token2_def
  pair2_def db2_def req0_def reset0_def db1r_def any_valid_def alice_changed_def db_changed_def
  alice_relogin_def db_relogin_def

lemmas token_service_defs = generateAuthTokens_def generateResetPasswordToken_def
  generateToken_def jwt_sign_def saveToken_def Token_create_def add_minutes_def
  unix_def Let_def verifyToken_def jwt_verify_def Token_findOne_def verifyToken_query_def

lemmas refreshAuth_defs = refreshAuth_def User_findById_def deleteOne_def UnauthorizedError_def

lemma login_example:
  "generateAuthTokens cfg0 1000 alice db0 =
     (\<lparr>access = \<lparr>tok = access0, tok_expires = 1801000\<rparr>,
       refresh = \<lparr>tok = token0, tok_expires = 2592001000\<rparr>\<rparr>, db1)"
  by (simp add: example_defs token_service_defs)

lemma rotation_example: "refreshAuth cfg0 2000 token0 db1 = (Inr pair2, db2)"
  by (simp add: example_defs token_service_defs refreshAuth_defs)

section \<open>Ledger lemmas\<close>

lemma Token_findOne_SomeD:
  "Token_findOne q s = Some d \<Longrightarrow> d \<in> set (tokens s) \<and> q d"
  unfolding Token_findOne_def by (auto simp: find_Some_iff)

lemma find_map_expires:
  "find (verifyToken_query t ty u) (map (\<lambda>d. d\<lparr>expires := f d\<rparr>) ds) =
     map_option (\<lambda>d. d\<lparr>expires := f d\<rparr>) (find (verifyToken_query t ty u) ds)"
  by (induction ds) (simp_all add: verifyToken_query_def)

lemma verifyToken_InrD:
  assumes "verifyToken cfg now t ty s = Inr d"
  shows "d \<in> set (tokens s) \<and> token d = t \<and> type d = ty \<and> blacklisted d = False
         \<and> (\<exists>p. jwt_verify t (jwt_secret cfg) now = Inr p \<and> user d = sub p)"
  using assms
  by (auto simp: verifyToken_def verifyToken_query_def
           split: sum.splits option.splits dest!: Token_findOne_SomeD)

lemma tokens_generateAuthTokens:
  "tokens (snd (generateAuthTokens cfg now u s)) =
     tokens s @ [\<lparr>doc_id = next_id s, token = tok (refresh (fst (generateAuthTokens cfg now u s))),
                  user = uid u, type = REFRESH,
                  expires = add_days cfg now (refreshExpirationDays cfg), blacklisted = False\<rparr>]"
  by (simp add: generateAuthTokens_def saveToken_def Token_create_def Let_def)

lemma users_generateAuthTokens:
  "users (snd (generateAuthTokens cfg now u s)) = users s"
  by (simp add: generateAuthTokens_def saveToken_def Token_create_def Let_def)

lemma refreshAuth_InrD:
  assumes "refreshAuth cfg now t s = (Inr pair, s')"
  shows "\<exists>d u. verifyToken cfg now t REFRESH s = Inr d \<and> User_findById (user d) s = Some u
           \<and> generateAuthTokens cfg now u (deleteOne d s) = (pair, s')"
  using assms
  by (auto simp: refreshAuth_def split: sum.splits option.splits prod.splits)

lemma refreshAuth_no_record:
  assumes "\<forall>d \<in> set (tokens s). \<not> (token d = t \<and> type d = REFRESH \<and> blacklisted d = False)"
  shows "refreshAuth cfg now t s = (Inl (UnauthorizedError ''Please authenticate''), s)"
proof (cases "verifyToken cfg now t REFRESH s")
  case (Inl e)
  then show ?thesis by (simp add: refreshAuth_def)
next
  case (Inr d)
  from verifyToken_InrD [OF Inr] assms show ?thesis by blast
qed

lemma filter_at_most_one:
  assumes "length (filter P xs) \<le> 1" "d \<in> set xs" "P d" "x \<in> set xs" "P x"
  shows "x = d"
proof -
  from assms(2,3) have dm: "d \<in> set (filter P xs)" by simp
  from assms(4,5) have xm: "x \<in> set (filter P xs)" by simp
  show ?thesis
  proof (cases "filter P xs")
    case Nil
    with dm show ?thesis by (simp del: set_filter)
  next
    case (Cons y ys)
    with assms(1) have "ys = []" by simp
    with Cons dm xm show ?thesis by (simp del: set_filter)
  qed
qed

lemma rotation_removes_token:
  assumes "refreshAuth cfg now t s = (Inr pair, s')"
    and "tok (refresh pair) \<noteq> t"
    and "length (filter (\<lambda>d. token d = t) (tokens s)) \<le> 1"
  shows "\<forall>x \<in> set (tokens s'). token x \<noteq> t"
proof -
  from refreshAuth_InrD [OF assms(1)] obtain d u where
    v: "verifyToken cfg now t REFRESH s = Inr d" and
    g: "generateAuthTokens cfg now u (deleteOne d s) = (pair, s')" by blast
  from verifyToken_InrD [OF v] have d: "d \<in> set (tokens s)" "token d = t" by simp_all
  have s': "tokens s' =
      filter (\<lambda>x. doc_id x \<noteq> doc_id d) (tokens s) @
        [\<lparr>doc_id = next_id s, token = tok (refresh pair), user = uid u, type = REFRESH,
          expires = add_days cfg now (refreshExpirationDays cfg), blacklisted = False\<rparr>]"
    using tokens_generateAuthTokens [of cfg now u "deleteOne d s"] g
    by (simp add: deleteOne_def)
  show ?thesis
  proof
    fix x assume x: "x \<in> set (tokens s')"
    show "token x \<noteq> t"
    proof
      assume tx: "token x = t"
      with x s' assms(2) have "x \<in> set (tokens s)" "doc_id x \<noteq> doc_id d" by auto
      with filter_at_most_one [OF assms(3) d(1) d(2) _ tx] show False by simp
    qed
  qed
qed

lemma rotation_issues_other_string:
  assumes "refreshAuth cfg now (Signed p k) s = (Inr pair, s')"
    and "iat p \<noteq> unix now"
  shows "tok (refresh pair) \<noteq> Signed p k"
proof -
  from refreshAuth_InrD [OF assms(1)] obtain d u where
    "generateAuthTokens cfg now u (deleteOne d s) = (pair, s')" by blast
  then have "iat (case tok (refresh pair) of Signed q k' \<Rightarrow> q) = unix now"
    by (auto simp: generateAuthTokens_def generateToken_def jwt_sign_def saveToken_def
          Token_create_def Let_def)
  with assms(2) show ?thesis by auto
qed

section \<open>Rotation and replay\<close>

text \<open>
  C1 (as the claim states it, refuted): \<open>alice\<close> logs in at clock reading 1000 and rotates
  \<open>token0\<close> at 1500, within the same second. The payload of the new refresh token has the
  same \<open>sub\<close>, \<open>iat\<close>, \<open>exp\<close> and type, so the rotation issues the string \<open>token0\<close>
  again and saves a record for it; a second rotation presenting \<open>token0\<close>, at 1900,
  succeeds.
\<close>

theorem refreshAuth_replay_same_second:
  "fst (refreshAuth cfg0 1500 token0 db1) =
     Inr \<lparr>access = \<lparr>tok = access0, tok_expires = 1801500\<rparr>,
          refresh = \<lparr>tok = token0, tok_expires = 2592001500\<rparr>\<rparr>
   \<and> fst (refreshAuth cfg0 1900 token0 (snd (refreshAuth cfg0 1500 token0 db1))) =
     Inr \<lparr>access = \<lparr>tok = access0, tok_expires = 1801900\<rparr>,
          refresh = \<lparr>tok = token0, tok_expires = 2592001900\<rparr>\<rparr>"
  by (simp add: example_defs token_service_defs refreshAuth_defs)

text \<open>
  C1 (amended): when a rotation of a refresh token succeeds, the refresh token it issues
  is another string than the one presented (as it is when the rotation runs in another
  second than the one of the token's \<open>iat\<close>), and the ledger held the presented string
  in at most one record, then a second rotation presenting the same string fails with
  Unauthorized, at any clock reading, and leaves the store as it is.
\<close>

theorem refreshAuth_replay_rejected:
  assumes "refreshAuth cfg now t s = (Inr pair, s')"
    and "tok (refresh pair) \<noteq> t"
    and "length (filter (\<lambda>d. token d = t) (tokens s)) \<le> 1"
  shows "refreshAuth cfg now' t s' = (Inl (UnauthorizedError ''Please authenticate''), s')"
  using rotation_removes_token [OF assms] by (intro refreshAuth_no_record) blast

theorem refreshAuth_replay_rejected_witness:
  "refreshAuth cfg0 2000 token0 db1 = (Inr pair2, db2)
   \<and> tok (refresh pair2) \<noteq> token0
   \<and> length (filter (\<lambda>d. token d = token0) (tokens db1)) \<le> 1
   \<and> refreshAuth cfg0 2500 token0 db2 = (Inl (UnauthorizedError ''Please authenticate''), db2)"
proof -
  have h1: "refreshAuth cfg0 2000 token0 db1 = (Inr pair2, db2)"
    by (rule rotation_example)
  have h2: "tok (refresh pair2) \<noteq> token0"
    by (simp add: example_defs)
  have h3: "length (filter (\<lambda>d. token d = token0) (tokens db1)) \<le> 1"
    by (simp add: example_defs)
  from refreshAuth_replay_rejected [OF h1 h2 h3, of 2500] h1 h2 h3 show ?thesis by simp
qed

section \<open>The ledger\<close>

text \<open>
  C3 (as the claim states it, refuted): the login of \<open>alice\<close> saves \<open>token0\<close> and gives
  \<open>db1\<close>; a second \<open>saveToken\<close> with the same token string, as a second login within the
  same second makes, leaves two records and not the store \<open>db1\<close>.
\<close>

theorem saveToken_not_idempotent:
  "snd (saveToken token0 ''u1'' 2592001000 REFRESH False db0) = db1
   \<and> snd (saveToken token0 ''u1'' 2592001000 REFRESH False db1) \<noteq> db1
   \<and> tokens (snd (saveToken token0 ''u1'' 2592001000 REFRESH False db1)) =
       [doc0, doc0\<lparr>doc_id := 1\<rparr>]"
  by (simp add: example_defs saveToken_def Token_create_def Let_def)

text \<open>
  C3 (amended): every call of \<open>saveToken\<close> persists one new record with the given token
  string, user, kind, expiry and flag, and keeps the records already there, also when a
  record with the same token string exists: the number of records holding the token
  string grows by one with each call.
\<close>

theorem saveToken_appends_record:
  "tokens (snd (saveToken t u e ty bl s)) = tokens s @ [fst (saveToken t u e ty bl s)]
   \<and> token (fst (saveToken t u e ty bl s)) = t
   \<and> user (fst (saveToken t u e ty bl s)) = u
   \<and> type (fst (saveToken t u e ty bl s)) = ty
   \<and> expires (fst (saveToken t u e ty bl s)) = e
   \<and> blacklisted (fst (saveToken t u e ty bl s)) = bl
   \<and> length (filter (\<lambda>d. token d = t) (tokens (snd (saveToken t u e ty bl s))))
       = Suc (length (filter (\<lambda>d. token d = t) (tokens s)))
   \<and> users (snd (saveToken t u e ty bl s)) = users s"
  by (simp add: saveToken_def Token_create_def Let_def)

text \<open>
  C4: \<open>verifyToken\<close> returns a record only if the record is in the ledger, holds the
  presented token string, has the requested kind and is not blacklisted. The ledger query
  does not read \<open>expires\<close>: rewriting the expiry of every record leaves the record found
  the same, up to that field. Expired records leave the ledger by the cleanup job, which
  keeps exactly the records that have not expired.
\<close>

theorem verifyToken_lookup:
  "(verifyToken cfg now t ty s = Inr d \<longrightarrow>
      d \<in> set (tokens s) \<and> token d = t \<and> type d = ty \<and> blacklisted d = False)
   \<and> Token_findOne (verifyToken_query t ty u)
        (s\<lparr>tokens := map (\<lambda>d. d\<lparr>expires := f d\<rparr>) (tokens s)\<rparr>)
      = map_option (\<lambda>d. d\<lparr>expires := f d\<rparr>) (Token_findOne (verifyToken_query t ty u) s)
   \<and> tokens (cleanupExpiredTokens now' s) = filter (\<lambda>d. now' \<le> expires d) (tokens s)"
proof -
  have a: "verifyToken cfg now t ty s = Inr d \<longrightarrow>
      d \<in> set (tokens s) \<and> token d = t \<and> type d = ty \<and> blacklisted d = False"
    using verifyToken_InrD [of cfg now t ty s d] by blast
  have b: "Token_findOne (verifyToken_query t ty u)
        (s\<lparr>tokens := map (\<lambda>d. d\<lparr>expires := f d\<rparr>) (tokens s)\<rparr>)
      = map_option (\<lambda>d. d\<lparr>expires := f d\<rparr>) (Token_findOne (verifyToken_query t ty u) s)"
    by (simp add: Token_findOne_def find_map_expires)
  have c: "tokens (cleanupExpiredTokens now' s) = filter (\<lambda>d. now' \<le> expires d) (tokens s)"
    by (simp add: cleanupExpiredTokens_def Token_deleteMany_def not_less)
  show ?thesis by (rule conjI [OF a conjI [OF b c]])
qed

theorem verifyToken_lookup_witness:
  "verifyToken cfg0 2000 token0 REFRESH db1 = Inr doc0
   \<and> doc0 \<in> set (tokens db1) \<and> token doc0 = token0 \<and> type doc0 = REFRESH
   \<and> blacklisted doc0 = False
   \<and> Token_findOne (verifyToken_query token0 REFRESH ''u1'')
        (db1\<lparr>tokens := map (\<lambda>d. d\<lparr>expires := 0\<rparr>) (tokens db1)\<rparr>)
      = Some (doc0\<lparr>expires := 0\<rparr>)
   \<and> tokens (cleanupExpiredTokens 2592001001 db1) = []"
proof -
  have h: "verifyToken cfg0 2000 token0 REFRESH db1 = Inr doc0"
    by (simp add: example_defs token_service_defs)
  have q: "Token_findOne (verifyToken_query token0 REFRESH ''u1'') db1 = Some doc0"
    by (simp add: example_defs token_service_defs)
  have e: "filter (\<lambda>d. 2592001001 \<le> expires d) (tokens db1) = []"
    by (simp add: example_defs)
  from verifyToken_lookup [of cfg0 2000 token0 REFRESH db1 doc0 "''u1''" "\<lambda>d. 0" 2592001001] h q e
  show ?thesis by simp
qed

section \<open>Login\<close>

text \<open>
  C7: a login with an email that no user has and a login with the email of a user whose
  password does not match fail with the same error, Unauthorized (401) with the message
  "Incorrect email or password", and write nothing to the store; the error handler turns
  both into the same response.
\<close>

theorem login_same_failure:
  assumes "User_findOne_email e1 s1 = None"
    and "User_findOne_email e2 s2 = Some u"
    and "\<not> comparePassword u p2"
  shows "login now1 e1 p1 s1 = (Inl (UnauthorizedError ''Incorrect email or password''), s1)
     \<and> login now2 e2 p2 s2 = (Inl (UnauthorizedError ''Incorrect email or password''), s2)
     \<and> fst (login now1 e1 p1 s1) = fst (login now2 e2 p2 s2)
     \<and> errorHandler cfg (errorConverter (UnauthorizedError ''Incorrect email or password''))
         = \<lparr>status = 401, success = False, message = ''Incorrect email or password''\<rparr>"
  using assms
  by (simp add: login_def UnauthorizedError_def errorConverter_def errorHandler_def)

theorem login_same_failure_witness:
  "User_findOne_email ''b@x.com'' db0 = None
   \<and> User_findOne_email ''a@x.com'' db0 = Some alice
   \<and> \<not> comparePassword alice ''wrong''
   \<and> login 1000 ''b@x.com'' ''abc12345'' db0
        = (Inl (UnauthorizedError ''Incorrect email or password''), db0)
   \<and> login 1000 ''a@x.com'' ''wrong'' db0
        = (Inl (UnauthorizedError ''Incorrect email or password''), db0)"
proof -
  have h1: "User_findOne_email ''b@x.com'' db0 = None"
    by (simp add: User_findOne_email_def example_defs)
  have h2: "User_findOne_email ''a@x.com'' db0 = Some alice"
    by (simp add: User_findOne_email_def example_defs)
  have h3: "\<not> comparePassword alice ''wrong''"
    by (simp add: comparePassword_def example_defs)
  from login_same_failure [OF h1 h2 h3, of 1000 "''abc12345''" 1000 cfg0] h1 h2 h3
  show ?thesis by simp
qed

section \<open>The authorization gate\<close>



section \<open>Role authorization\<close>

text \<open>
  C9: for an authenticated request and a non-empty list of required rights,
  \<open>authorize\<close> lets the request proceed if and only if the role of the user has every
  required right or the \<open>userId\<close> path parameter is the user's own id; otherwise it
  answers Forbidden.
\<close>

theorem authorize_iff:
  assumes "req_user req = Some u" and "requiredRights \<noteq> []"
  shows "(authorize requiredRights req = Inr req \<longleftrightarrow>
            set requiredRights \<subseteq> set (roleRights (role u)) \<or> params_userId req = Some (uid u))
     \<and> (authorize requiredRights req =
            Inl (ForbiddenError ''You do not have permission to perform this action.'') \<longleftrightarrow>
          \<not> (set requiredRights \<subseteq> set (roleRights (role u)) \<or> params_userId req = Some (uid u)))"
  using assms
  by (auto simp: authorize_def Let_def list_all_iff)

theorem authorize_iff_witness:
  "req_user (req0\<lparr>req_user := Some alice, params_userId := Some ''u1''\<rparr>) = Some alice
   \<and> [''manageUsers''] \<noteq> []
   \<and> \<not> set [''manageUsers''] \<subseteq> set (roleRights (role alice))
   \<and> authorize [''manageUsers''] (req0\<lparr>req_user := Some alice, params_userId := Some ''u1''\<rparr>)
        = Inr (req0\<lparr>req_user := Some alice, params_userId := Some ''u1''\<rparr>)
   \<and> authorize [''manageUsers''] (req0\<lparr>req_user := Some alice, params_userId := Some ''u2''\<rparr>)
        = Inl (ForbiddenError ''You do not have permission to perform this action.'')"
proof -
  have h1: "req_user (req0\<lparr>req_user := Some alice, params_userId := Some ''u1''\<rparr>) = Some alice"
    by simp
  have h1': "req_user (req0\<lparr>req_user := Some alice, params_userId := Some ''u2''\<rparr>) = Some alice"
    by simp
  have h2: "[''manageUsers''] \<noteq> []" by simp
  have h3: "\<not> set [''manageUsers''] \<subseteq> set (roleRights (role alice))"
    by (simp add: example_defs)
  have i: "uid alice = ''u1''" by (simp add: example_defs)
  from authorize_iff [OF h1 h2] authorize_iff [OF h1' h2] h1 h2 h3 i
  show ?thesis by simp
qed

section \<open>Profile update\<close>

lemma assign_path_frame:
  assumes "k \<notin> {''password'', ''role'', ''isActive'', ''isEmailVerified''}"
  shows "uid (assign_path k v u) = uid u \<and> password (assign_path k v u) = password u
       \<and> role (assign_path k v u) = role u \<and> isActive (assign_path k v u) = isActive u
       \<and> isEmailVerified (assign_path k v u) = isEmailVerified u"
  using assms by (cases v) (simp_all add: set_other_def)

lemma Object_assign_frame:
  assumes "\<forall>kv \<in> set kvs. fst kv \<notin> {''password'', ''role'', ''isActive'', ''isEmailVerified''}"
  shows "uid (Object_assign u kvs) = uid u \<and> password (Object_assign u kvs) = password u
       \<and> role (Object_assign u kvs) = role u \<and> isActive (Object_assign u kvs) = isActive u
       \<and> isEmailVerified (Object_assign u kvs) = isEmailVerified u"
  using assms
proof (induction kvs arbitrary: u)
  case Nil
  then show ?case by simp
next
  case (Cons kv kvs)
  obtain k v where kv: "kv = (k, v)" by (cases kv)
  from Cons.prems kv have k: "k \<notin> {''password'', ''role'', ''isActive'', ''isEmailVerified''}"
    by simp
  from Cons.prems have rest:
    "\<forall>kv \<in> set kvs. fst kv \<notin> {''password'', ''role'', ''isActive'', ''isEmailVerified''}"
    by simp
  from Cons.IH [OF rest, of "assign_path k v u"] assign_path_frame [OF k, of v u] kv
  show ?case by simp
qed

lemma updateData_of_keys:
  "\<forall>kv \<in> set (updateData_of b).
     fst kv \<notin> {''password'', ''role'', ''isActive'', ''isEmailVerified''}"
  by (simp add: updateData_of_def)

lemma replace_user_frame:
  assumes "find (\<lambda>x. uid x = uid u') xs = Some stored"
    and "password u' = password stored" "role u' = role stored"
    and "isActive u' = isActive stored" "isEmailVerified u' = isEmailVerified stored"
  shows "map (\<lambda>x. (uid x, password x, role x, isActive x, isEmailVerified x)) (replace_user u' xs)
       = map (\<lambda>x. (uid x, password x, role x, isActive x, isEmailVerified x)) xs"
  using assms by (induction xs) (auto split: if_splits)

lemma preSave_unmodified:
  assumes "User_findById (uid u) s = Some stored" "password u = password stored"
  shows "preSave now s u = u"
  using assms by (simp add: preSave_def isModified_password_def)

lemma User_findById_uid: "User_findById i s = Some u \<Longrightarrow> uid u = i"
  unfolding User_findById_def by (auto simp: find_Some_iff)

lemma User_save_frame:
  assumes "User_findById (uid u) s = Some stored"
    and "password u = password stored" "role u = role stored"
    and "isActive u = isActive stored" "isEmailVerified u = isEmailVerified stored"
  shows "map (\<lambda>x. (uid x, password x, role x, isActive x, isEmailVerified x))
           (users (snd (User_save valid now u s)))
       = map (\<lambda>x. (uid x, password x, role x, isActive x, isEmailVerified x)) (users s)
       \<and> (\<forall>u'. fst (User_save valid now u s) = Inr u' \<longrightarrow> u' = u)"
proof -
  from assms(1) have f: "find (\<lambda>x. uid x = uid u) (users s) = Some stored"
    by (simp add: User_findById_def)
  from preSave_unmodified [OF assms(1,2)] replace_user_frame [OF f assms(2-5)]
  show ?thesis by (simp add: User_save_def User_save_unvalidated_def)
qed

lemma updateUserById_cases:
  assumes "User_findById i s = Some stored"
  shows "updateUserById valid now i kvs s = (Inl (ConflictError ''Email already taken''), s)
       \<or> updateUserById valid now i kvs s = User_save valid now (Object_assign stored kvs) s"
  using assms
  by (simp add: updateUserById_def getUserById_def split: option.split json.split)

lemma updateUserById_frame:
  assumes "\<forall>kv \<in> set kvs. fst kv \<notin> {''password'', ''role'', ''isActive'', ''isEmailVerified''}"
  shows "map (\<lambda>x. (uid x, password x, role x, isActive x, isEmailVerified x))
           (users (snd (updateUserById valid now i kvs s)))
       = map (\<lambda>x. (uid x, password x, role x, isActive x, isEmailVerified x)) (users s)
       \<and> (\<forall>u' stored. fst (updateUserById valid now i kvs s) = Inr u'
             \<and> User_findById i s = Some stored \<longrightarrow>
             password u' = password stored \<and> role u' = role stored
             \<and> isActive u' = isActive stored \<and> isEmailVerified u' = isEmailVerified stored)"
proof (cases "User_findById i s")
  case None
  then show ?thesis by (simp add: updateUserById_def getUserById_def)
next
  case (Some stored)
  have i: "uid stored = i" by (rule User_findById_uid [OF Some])
  let ?u = "Object_assign stored kvs"
  from Object_assign_frame [OF assms, of stored] have fr: "uid ?u = uid stored"
    "password ?u = password stored" "role ?u = role stored" "isActive ?u = isActive stored"
    "isEmailVerified ?u = isEmailVerified stored" by simp_all
  from Some i fr(1) have st: "User_findById (uid ?u) s = Some stored" by simp
  note sv = User_save_frame [OF st fr(2-5), of valid now]
  from updateUserById_cases [OF Some, of valid now kvs] show ?thesis
  proof
    assume "updateUserById valid now i kvs s = (Inl (ConflictError ''Email already taken''), s)"
    then show ?thesis by simp
  next
    assume e: "updateUserById valid now i kvs s = User_save valid now ?u s"
    from sv have m: "map (\<lambda>x. (uid x, password x, role x, isActive x, isEmailVerified x))
           (users (snd (updateUserById valid now i kvs s)))
       = map (\<lambda>x. (uid x, password x, role x, isActive x, isEmailVerified x)) (users s)"
      unfolding e by (rule conjunct1)
    from sv have r: "\<forall>u'. fst (updateUserById valid now i kvs s) = Inr u' \<longrightarrow> u' = ?u"
      unfolding e by (rule conjunct2)
    from r fr Some have "\<forall>u' stored'. fst (updateUserById valid now i kvs s) = Inr u'
             \<and> User_findById i s = Some stored' \<longrightarrow>
             password u' = password stored' \<and> role u' = role stored'
             \<and> isActive u' = isActive stored' \<and> isEmailVerified u' = isEmailVerified stored'"
      by (metis option.inject)
    with m show ?thesis by blast
  qed
qed

text \<open>
  C10: for every request of an authenticated user, \<open>updateMe\<close> forwards to the user
  update exactly the entries of the body whose key is not \<open>password\<close>, \<open>role\<close>,
  \<open>isActive\<close> or \<open>isEmailVerified\<close>, and the update leaves these four fields of
  every stored user, and of the user it returns, as they were.
\<close>

theorem updateMe_frame:
  "(\<forall>k v. (k, v) \<in> set (updateData_of (body req)) \<longleftrightarrow>
       (k, v) \<in> set (body req)
       \<and> k \<notin> {''password'', ''role'', ''isActive'', ''isEmailVerified''})
   \<and> (\<forall>u. req_user req = Some u \<longrightarrow>
         updateMe valid now req s
           = updateUserById valid now (uid u) (updateData_of (body req)) s)
   \<and> map (\<lambda>x. (uid x, password x, role x, isActive x, isEmailVerified x))
        (users (snd (updateMe valid now req s)))
     = map (\<lambda>x. (uid x, password x, role x, isActive x, isEmailVerified x)) (users s)
   \<and> (\<forall>u u' stored. req_user req = Some u \<and> fst (updateMe valid now req s) = Inr u'
         \<and> User_findById (uid u) s = Some stored \<longrightarrow>
         password u' = password stored \<and> role u' = role stored
         \<and> isActive u' = isActive stored \<and> isEmailVerified u' = isEmailVerified stored)"
proof -
  have a: "\<forall>k v. (k, v) \<in> set (updateData_of (body req)) \<longleftrightarrow>
       (k, v) \<in> set (body req)
       \<and> k \<notin> {''password'', ''role'', ''isActive'', ''isEmailVerified''}"
    by (simp add: updateData_of_def)
  have b: "\<forall>u. req_user req = Some u \<longrightarrow>
         updateMe valid now req s
           = updateUserById valid now (uid u) (updateData_of (body req)) s"
    by (simp add: updateMe_def)
  have c: "map (\<lambda>x. (uid x, password x, role x, isActive x, isEmailVerified x))
        (users (snd (updateMe valid now req s)))
     = map (\<lambda>x. (uid x, password x, role x, isActive x, isEmailVerified x)) (users s)"
  proof (cases "req_user req")
    case None
    then show ?thesis by (simp add: updateMe_def)
  next
    case (Some u)
    from updateUserById_frame [OF updateData_of_keys, of valid now "uid u" "body req" s]
    show ?thesis by (simp add: updateMe_def Some)
  qed
  have d: "\<forall>u u' stored. req_user req = Some u \<and> fst (updateMe valid now req s) = Inr u'
         \<and> User_findById (uid u) s = Some stored \<longrightarrow>
         password u' = password stored \<and> role u' = role stored
         \<and> isActive u' = isActive stored \<and> isEmailVerified u' = isEmailVerified stored"
  proof (intro allI impI)
    fix u u' stored
    assume h: "req_user req = Some u \<and> fst (updateMe valid now req s) = Inr u'
         \<and> User_findById (uid u) s = Some stored"
    then have e: "updateMe valid now req s
        = updateUserById valid now (uid u) (updateData_of (body req)) s"
      by (simp add: updateMe_def)
    from updateUserById_frame [OF updateData_of_keys, of valid now "uid u" "body req" s] h
    show "password u' = password stored \<and> role u' = role stored
         \<and> isActive u' = isActive stored \<and> isEmailVerified u' = isEmailVerified stored"
      unfolding e by blast
  qed
  show ?thesis by (rule conjI [OF a conjI [OF b conjI [OF c d]]])
qed

theorem updateMe_frame_witness:
  "req_user req1 = Some alice
   \<and> updateData_of (body req1) = [(''name'', JString ''Al'')]
   \<and> fst (updateMe (\<lambda>u. True) 5000 req1 db0)
       = Inr (alice\<lparr>other := [(''name'', JString ''Al'')]\<rparr>)
   \<and> User_findById (uid alice) db0 = Some alice
   \<and> role (alice\<lparr>other := [(''name'', JString ''Al'')]\<rparr>) = role alice
   \<and> isActive (alice\<lparr>other := [(''name'', JString ''Al'')]\<rparr>) = isActive alice
   \<and> fst (updateUserById (\<lambda>u. True) 5000 ''u1'' (body req1) db0)
       = Inr (alice\<lparr>role := RoleAdmin, isActive := False, other := [(''name'', JString ''Al'')]\<rparr>)"
proof -
  have h0: "req_user req1 = Some alice"
    by (simp add: req1_def)
  have h1: "fst (updateMe (\<lambda>u. True) 5000 req1 db0)
       = Inr (alice\<lparr>other := [(''name'', JString ''Al'')]\<rparr>)"
    by (simp add: updateMe_def updateData_of_def updateUserById_def getUserById_def
          User_findById_def User_save_def User_save_unvalidated_def preSave_def
          isModified_password_def set_other_def req1_def example_defs)
  have h2: "User_findById (uid alice) db0 = Some alice"
    by (simp add: User_findById_def example_defs)
  have h3: "fst (updateUserById (\<lambda>u. True) 5000 ''u1'' (body req1) db0)
       = Inr (alice\<lparr>role := RoleAdmin, isActive := False, other := [(''name'', JString ''Al'')]\<rparr>)"
    by (simp add: updateUserById_def getUserById_def role_of_string_def
          User_findById_def User_save_def User_save_unvalidated_def preSave_def
          isModified_password_def set_other_def req1_def example_defs)
  have h4: "updateData_of (body req1) = [(''name'', JString ''Al'')]"
    by (simp add: updateData_of_def req1_def)
  from updateMe_frame [of req1 "\<lambda>u. True" 5000 db0] h0 h1 h2 h3 h4
  show ?thesis by simp
qed

section \<open>Forgot password\<close>

text \<open>
  When the transport accepts the message, or no user has the email, the handler answers
  with the same success response; without a user it writes nothing to the store.
\<close>

lemma forgotPassword_absent:
  assumes "User_findOne_email e s = None"
  shows "forgotPassword_controller cfg smtp now e s =
     (\<lparr>status = 200, success = True,
       message = ''If an account exists with this email, a password reset link has been sent.''\<rparr>, s)"
  using assms by (simp add: forgotPassword_controller_def forgotPassword_def)

lemma forgotPassword_delivered:
  assumes "\<forall>m. smtp m = None"
  shows "fst (forgotPassword_controller cfg smtp now e s) =
     \<lparr>status = 200, success = True,
       message = ''If an account exists with this email, a password reset link has been sent.''\<rparr>"
  using assms
  by (simp add: forgotPassword_controller_def forgotPassword_def sendResetPasswordEmail_def
        sendEmail_def generateResetPasswordToken_def saveToken_def Token_create_def Let_def
        split: option.splits prod.splits)

text \<open>
  C8 (the code at the failing input): the transport rejects every message. For the
  email of \<open>alice\<close> the service saves a reset token, \<open>sendEmail\<close> rethrows, and the
  handler answers 500; for an email that no user has it answers 200 with the success
  message.
\<close>

theorem forgotPassword_reveals_on_mail_failure:
  "forgotPassword_controller cfg0 (\<lambda>m. Some ''connect ECONNREFUSED'') 1000 ''a@x.com'' db0 =
     (\<lparr>status = 500, success = False, message = ''Internal server error''\<rparr>,
      db0\<lparr>tokens := [\<lparr>doc_id = 0,
                        token = Signed \<lparr>sub = ''u1'', iat = 1, exp = 601,
                                        jwt_type = RESET_PASSWORD\<rparr> ''k'',
                        user = ''u1'', type = RESET_PASSWORD, expires = 601000,
                        blacklisted = False\<rparr>],
          next_id := 1\<rparr>)
   \<and> forgotPassword_controller cfg0 (\<lambda>m. Some ''connect ECONNREFUSED'') 1000 ''b@x.com'' db0 =
     (\<lparr>status = 200, success = True,
       message = ''If an account exists with this email, a password reset link has been sent.''\<rparr>,
      db0)"
  by (simp add: forgotPassword_controller_def forgotPassword_def sendResetPasswordEmail_def
        sendEmail_def User_findOne_email_def errorConverter_def errorHandler_def
        error_message_def example_defs token_service_defs)

section \<open>Password change and reset\<close>

lemma replace_user_uids: "map uid (replace_user u xs) = map uid xs"
  by (induction xs) simp_all

lemma find_uid_None_iff: "find (\<lambda>x. uid x = i) xs = None \<longleftrightarrow> i \<notin> set (map uid xs)"
  by (auto simp: find_None_iff)

lemma User_findById_save:
  "User_findById i (User_save_unvalidated now u s) = None \<longleftrightarrow> User_findById i s = None"
  by (simp add: User_findById_def User_save_unvalidated_def find_uid_None_iff replace_user_uids)

lemma uid_preSave: "uid (preSave now s u) = uid u"
  by (simp add: preSave_def)

lemma Token_deleteMany_tokens:
  "\<forall>d \<in> set (tokens (Token_deleteMany q s)). \<not> q d"
  by (simp add: Token_deleteMany_def)

lemma Token_deleteMany_subset:
  "set (tokens (Token_deleteMany q s)) \<subseteq> set (tokens s)"
  by (auto simp: Token_deleteMany_def)

lemma users_Token_deleteMany: "users (Token_deleteMany q s) = users s"
  by (simp add: Token_deleteMany_def)

lemma User_findById_deleteMany:
  "User_findById i (Token_deleteMany q s) = User_findById i s"
  by (simp add: User_findById_def users_Token_deleteMany)

lemma changePassword_InrD:
  assumes "changePassword valid now i cur new s = (Inr (), s')"
  shows "(\<forall>d \<in> set (tokens s'). \<not> (user d = i \<and> type d = REFRESH))
       \<and> User_findById i s' \<noteq> None"
proof -
  from assms obtain u where u: "User_findById i s = Some u"
    by (auto simp: changePassword_def split: option.splits)
  have i: "uid u = i" by (rule User_findById_uid [OF u])
  let ?v = "u\<lparr>password := Plain new\<rparr>"
  from assms u i have s': "s' = Token_deleteMany (\<lambda>d. user d = i \<and> type d = REFRESH)
      (User_save_unvalidated now ?v s)"
    by (auto simp: changePassword_def User_save_def uid_preSave split: if_splits)
  from u have "User_findById i (User_save_unvalidated now ?v s) \<noteq> None"
    by (simp add: User_findById_save)
  with s' Token_deleteMany_tokens [of "\<lambda>d. user d = i \<and> type d = REFRESH"
      "User_save_unvalidated now ?v s"]
  show ?thesis by (simp add: User_findById_deleteMany)
qed

lemma resetPassword_InrD:
  assumes "resetPassword valid cfg now rt new s = (Inr (), s')"
    and "verifyToken cfg now rt RESET_PASSWORD s = Inr d"
  shows "(\<forall>x \<in> set (tokens s'). \<not> (user x = user d \<and> type x = REFRESH))
       \<and> User_findById (user d) s' \<noteq> None"
proof -
  from assms obtain u where u: "User_findById (user d) s = Some u"
    by (auto simp: resetPassword_def split: option.splits)
  have i: "uid u = user d" by (rule User_findById_uid [OF u])
  let ?v = "u\<lparr>password := Plain new\<rparr>"
  let ?s1 = "Token_deleteMany (\<lambda>x. user x = user d \<and> type x = RESET_PASSWORD)
      (User_save_unvalidated now ?v s)"
  from assms u i have s': "s' = Token_deleteMany (\<lambda>x. user x = user d \<and> type x = REFRESH) ?s1"
    by (auto simp: resetPassword_def User_save_def uid_preSave split: if_splits)
  from u have "User_findById (user d) (User_save_unvalidated now ?v s) \<noteq> None"
    by (simp add: User_findById_save)
  with s' Token_deleteMany_tokens [of "\<lambda>x. user x = user d \<and> type x = REFRESH" ?s1]
  show ?thesis by (simp add: User_findById_deleteMany)
qed

lemma refreshAuth_no_refresh_record:
  assumes "\<forall>d \<in> set (tokens s). \<not> (user d = i \<and> type d = REFRESH)"
    and "sub p = i"
  shows "refreshAuth cfg now (Signed p k) s = (Inl (UnauthorizedError ''Please authenticate''), s)"
proof (cases "verifyToken cfg now (Signed p k) REFRESH s")
  case (Inl e)
  then show ?thesis by (simp add: refreshAuth_def)
next
  case (Inr d)
  from verifyToken_InrD [OF Inr] obtain p' where
    d: "d \<in> set (tokens s)" "type d = REFRESH" and
    p': "jwt_verify (Signed p k) (jwt_secret cfg) now = Inr p'" "user d = sub p'" by blast
  from p'(1) have "p' = p" by (simp add: jwt_verify_def split: if_splits)
  with d p'(2) assms show ?thesis by blast
qed

lemma fresh_token_rotates:
  assumes "User_findById (uid u) s \<noteq> None"
    and "unix now2 < unix (add_days cfg now1 (refreshExpirationDays cfg))"
  shows "\<exists>pair'. fst (refreshAuth cfg now2 (tok (refresh (fst (generateAuthTokens cfg now1 u s))))
                       (snd (generateAuthTokens cfg now1 u s))) = Inr pair'"
proof -
  let ?g = "generateAuthTokens cfg now1 u s"
  let ?t = "tok (refresh (fst ?g))"
  let ?p = "\<lparr>sub = uid u, iat = unix now1, exp = unix (add_days cfg now1 (refreshExpirationDays cfg)),
             jwt_type = REFRESH\<rparr>"
  have t: "?t = Signed ?p (jwt_secret cfg)"
    by (simp add: generateAuthTokens_def generateToken_def jwt_sign_def saveToken_def
          Token_create_def Let_def)
  from assms(2) have v: "jwt_verify ?t (jwt_secret cfg) now2 = Inr ?p"
    by (simp add: t jwt_verify_def)
  have "\<exists>x \<in> set (tokens (snd ?g)). verifyToken_query ?t REFRESH (uid u) x"
    by (simp add: tokens_generateAuthTokens verifyToken_query_def)
  then have "Token_findOne (verifyToken_query ?t REFRESH (uid u)) (snd ?g) \<noteq> None"
    unfolding Token_findOne_def find_None_iff by blast
  then obtain d where d: "Token_findOne (verifyToken_query ?t REFRESH (uid u)) (snd ?g) = Some d"
    by blast
  from Token_findOne_SomeD [OF d] have ud: "user d = uid u"
    by (simp add: verifyToken_query_def)
  from v d have vt: "verifyToken cfg now2 ?t REFRESH (snd ?g) = Inr d"
    by (simp add: verifyToken_def)
  from assms(1) ud obtain u' where u': "User_findById (user d) (snd ?g) = Some u'"
    by (auto simp: User_findById_def users_generateAuthTokens)
  from vt u' show ?thesis
    by (simp add: refreshAuth_def split_beta)
qed

lemma refreshAuth_after_later_issue:
  assumes "\<forall>d \<in> set (tokens s). \<not> (user d = i \<and> type d = REFRESH)"
    and "sub p = i" and "iat p \<noteq> unix now1"
  shows "fst (refreshAuth cfg now (Signed p k) (snd (generateAuthTokens cfg1 now1 u s)))
           = Inl (UnauthorizedError ''Please authenticate'')"
proof (cases "verifyToken cfg now (Signed p k) REFRESH (snd (generateAuthTokens cfg1 now1 u s))")
  case (Inl e)
  then show ?thesis by (simp add: refreshAuth_def)
next
  case (Inr d)
  let ?g = "generateAuthTokens cfg1 now1 u s"
  from verifyToken_InrD [OF Inr] obtain p' where
    d: "d \<in> set (tokens (snd ?g))" "token d = Signed p k" "type d = REFRESH" and
    p': "jwt_verify (Signed p k) (jwt_secret cfg) now = Inr p'" "user d = sub p'" by blast
  from p'(1) have "p' = p" by (simp add: jwt_verify_def split: if_splits)
  with p'(2) assms(2) have ud: "user d = i" by simp
  have t: "tok (refresh (fst ?g)) =
      Signed \<lparr>sub = uid u, iat = unix now1,
               exp = unix (add_days cfg1 now1 (refreshExpirationDays cfg1)),
               jwt_type = REFRESH\<rparr> (jwt_secret cfg1)"
    by (simp add: generateAuthTokens_def generateToken_def jwt_sign_def saveToken_def
          Token_create_def Let_def)
  from d(1) have "d \<in> set (tokens s) \<or> token d = tok (refresh (fst ?g))"
    by (auto simp: tokens_generateAuthTokens)
  then show ?thesis
  proof
    assume "d \<in> set (tokens s)"
    with assms(1) ud d(3) show ?thesis by blast
  next
    assume "token d = tok (refresh (fst ?g))"
    with d(2) t have "iat p = unix now1" by auto
    with assms(3) show ?thesis by simp
  qed
qed

lemma refreshAuth_later_store:
  assumes "\<forall>d \<in> set (tokens s). \<not> (user d = i \<and> type d = REFRESH)"
    and "sub p = i"
    and "\<forall>d \<in> set (tokens s2). d \<in> set (tokens s) \<or> token d \<noteq> Signed p k"
  shows "refreshAuth cfg now (Signed p k) s2
           = (Inl (UnauthorizedError ''Please authenticate''), s2)"
proof (cases "verifyToken cfg now (Signed p k) REFRESH s2")
  case (Inl e)
  then show ?thesis by (simp add: refreshAuth_def)
next
  case (Inr d)
  from verifyToken_InrD [OF Inr] obtain p' where
    d: "d \<in> set (tokens s2)" "token d = Signed p k" "type d = REFRESH" and
    p': "jwt_verify (Signed p k) (jwt_secret cfg) now = Inr p'" "user d = sub p'" by blast
  from p'(1) have "p' = p" by (simp add: jwt_verify_def split: if_splits)
  with p'(2) assms(2) have "user d = i" by simp
  moreover from assms(3) d(1,2) have "d \<in> set (tokens s)" by blast
  ultimately show ?thesis using assms(1) d(3) by blast
qed

text \<open>
  C5 (as the claim states it, refuted): \<open>token0\<close> was issued to \<open>alice\<close> at clock reading
  1000. She changes her password at 1200, which deletes the record of \<open>token0\<close>, and logs
  in again at 1500, within the same second: the login signs the payload of \<open>token0\<close>
  again and saves a record for that string. A rotation presenting \<open>token0\<close> at 2000
  succeeds.
\<close>

theorem password_change_same_second_login:
  "changePassword any_valid 1200 ''u1'' ''abc12345'' ''newpass99'' db1 = (Inr (), db_changed)
   \<and> login 1500 ''a@x.com'' ''newpass99'' db_changed
       = (Inr alice_relogin, db_changed\<lparr>users := [alice_relogin]\<rparr>)
   \<and> generateAuthTokens cfg0 1500 alice_relogin (db_changed\<lparr>users := [alice_relogin]\<rparr>)
       = (\<lparr>access = \<lparr>tok = access0, tok_expires = 1801500\<rparr>,
           refresh = \<lparr>tok = token0, tok_expires = 2592001500\<rparr>\<rparr>, db_relogin)
   \<and> fst (refreshAuth cfg0 2000 token0 db_relogin) = Inr pair2"
proof -
  have a: "changePassword any_valid 1200 ''u1'' ''abc12345'' ''newpass99'' db1
      = (Inr (), db_changed)"
    by (simp add: changePassword_def User_findById_def comparePassword_def User_save_def
          User_save_unvalidated_def preSave_def isModified_password_def hash_pw_def
          Token_deleteMany_def example_defs)
  have b: "login 1500 ''a@x.com'' ''newpass99'' db_changed
       = (Inr alice_relogin, db_changed\<lparr>users := [alice_relogin]\<rparr>)"
    by (simp add: login_def User_findOne_email_def comparePassword_def User_findById_def
          User_save_unvalidated_def preSave_def isModified_password_def example_defs)
  have c: "generateAuthTokens cfg0 1500 alice_relogin (db_changed\<lparr>users := [alice_relogin]\<rparr>)
       = (\<lparr>access = \<lparr>tok = access0, tok_expires = 1801500\<rparr>,
           refresh = \<lparr>tok = token0, tok_expires = 2592001500\<rparr>\<rparr>, db_relogin)"
    by (simp add: example_defs token_service_defs)
  have d: "fst (refreshAuth cfg0 2000 token0 db_relogin) = Inr pair2"
    by (simp add: example_defs token_service_defs refreshAuth_defs)
  from a b c d show ?thesis by simp
qed

text \<open>
  C5 (amended): when \<open>changePassword\<close> or \<open>resetPassword\<close> has completed for a user, no
  refresh record of the user remains. A rotation presenting any refresh token of that
  user fails with Unauthorized on the store the change leaves, at any clock reading, and
  on every later store in which each record added since the change holds another
  string; so it still fails after a later issue of a pair to the user, provided that
  issue does not happen in the second of the \<open>iat\<close> of the presented token (an issue in
  that second can sign the same string again). A refresh token issued to the user after
  the change rotates successfully while its \<open>exp\<close> has not passed.
\<close>

theorem password_change_revokes_refresh:
  assumes "changePassword valid now i cur new s = (Inr (), s')
         \<or> (\<exists>d. resetPassword valid rcfg now rt new s = (Inr (), s')
                 \<and> verifyToken rcfg now rt RESET_PASSWORD s = Inr d \<and> user d = i)"
  shows "(\<forall>p k. sub p = i \<longrightarrow>
            refreshAuth cfg now' (Signed p k) s'
              = (Inl (UnauthorizedError ''Please authenticate''), s'))
       \<and> (\<forall>p k. sub p = i
              \<and> (\<forall>d \<in> set (tokens s2). d \<in> set (tokens s') \<or> token d \<noteq> Signed p k) \<longrightarrow>
            refreshAuth cfg now' (Signed p k) s2
              = (Inl (UnauthorizedError ''Please authenticate''), s2))
       \<and> (\<forall>p k. sub p = i \<and> uid u = i \<and> iat p \<noteq> unix now1 \<longrightarrow>
            fst (refreshAuth cfg now' (Signed p k) (snd (generateAuthTokens icfg now1 u s')))
              = Inl (UnauthorizedError ''Please authenticate''))
       \<and> (uid u = i \<and> unix now2 < unix (add_days cfg now1 (refreshExpirationDays cfg)) \<longrightarrow>
            (\<exists>pair'. fst (refreshAuth cfg now2
                             (tok (refresh (fst (generateAuthTokens cfg now1 u s'))))
                             (snd (generateAuthTokens cfg now1 u s'))) = Inr pair'))"
proof -
  from assms have r: "(\<forall>d \<in> set (tokens s'). \<not> (user d = i \<and> type d = REFRESH))
       \<and> User_findById i s' \<noteq> None"
  proof
    assume "changePassword valid now i cur new s = (Inr (), s')"
    then show ?thesis by (rule changePassword_InrD)
  next
    assume "\<exists>d. resetPassword valid rcfg now rt new s = (Inr (), s')
                 \<and> verifyToken rcfg now rt RESET_PASSWORD s = Inr d \<and> user d = i"
    then obtain d where "resetPassword valid rcfg now rt new s = (Inr (), s')"
      "verifyToken rcfg now rt RESET_PASSWORD s = Inr d" "user d = i" by blast
    with resetPassword_InrD [of valid rcfg now rt new s s' d] show ?thesis by simp
  qed
  have old: "\<forall>p k. sub p = i \<longrightarrow>
            refreshAuth cfg now' (Signed p k) s'
              = (Inl (UnauthorizedError ''Please authenticate''), s')"
    using r refreshAuth_no_refresh_record [of s' i _ cfg now'] by blast
  have store: "\<forall>p k. sub p = i
              \<and> (\<forall>d \<in> set (tokens s2). d \<in> set (tokens s') \<or> token d \<noteq> Signed p k) \<longrightarrow>
            refreshAuth cfg now' (Signed p k) s2
              = (Inl (UnauthorizedError ''Please authenticate''), s2)"
    using r refreshAuth_later_store [of s' i _ s2 _ cfg now'] by blast
  have later: "\<forall>p k. sub p = i \<and> uid u = i \<and> iat p \<noteq> unix now1 \<longrightarrow>
            fst (refreshAuth cfg now' (Signed p k) (snd (generateAuthTokens icfg now1 u s')))
              = Inl (UnauthorizedError ''Please authenticate'')"
    using r refreshAuth_after_later_issue [of s' i _ now1 cfg now' _ icfg u] by blast
  have fresh: "uid u = i \<and> unix now2 < unix (add_days cfg now1 (refreshExpirationDays cfg)) \<longrightarrow>
            (\<exists>pair'. fst (refreshAuth cfg now2
                             (tok (refresh (fst (generateAuthTokens cfg now1 u s'))))
                             (snd (generateAuthTokens cfg now1 u s'))) = Inr pair')"
    using r fresh_token_rotates [of u s' now2 cfg now1] by blast
  show ?thesis by (rule conjI [OF old conjI [OF store conjI [OF later fresh]]])
qed

theorem password_change_revokes_refresh_witness:
  "changePassword any_valid 1200 ''u1'' ''abc12345'' ''newpass99'' db1 = (Inr (), db_changed)
   \<and> refreshAuth cfg0 4000 token0 db_changed
       = (Inl (UnauthorizedError ''Please authenticate''), db_changed)
   \<and> uid alice_changed = ''u1'' \<and> iat \<lparr>sub = ''u1'', iat = 1, exp = 2592001, jwt_type = REFRESH\<rparr>
       \<noteq> unix 5000
   \<and> fst (refreshAuth cfg0 6000 token0 (snd (generateAuthTokens cfg0 5000 alice_changed db_changed)))
       = Inl (UnauthorizedError ''Please authenticate'')
   \<and> unix 6000 < unix (add_days cfg0 5000 (refreshExpirationDays cfg0))
   \<and> \<not> isl (fst (refreshAuth cfg0 6000
        (tok (refresh (fst (generateAuthTokens cfg0 5000 alice_changed db_changed))))
        (snd (generateAuthTokens cfg0 5000 alice_changed db_changed))))
   \<and> resetPassword any_valid cfg0 1200 reset0 ''newpass99'' db1r
       = (Inr (), db_changed\<lparr>next_id := 2\<rparr>)
   \<and> refreshAuth cfg0 4000 token0 (db_changed\<lparr>next_id := 2\<rparr>)
       = (Inl (UnauthorizedError ''Please authenticate''), db_changed\<lparr>next_id := 2\<rparr>)"
proof -
  have h1: "changePassword any_valid 1200 ''u1'' ''abc12345'' ''newpass99'' db1
      = (Inr (), db_changed)"
    by (simp add: changePassword_def User_findById_def comparePassword_def User_save_def
          User_save_unvalidated_def preSave_def isModified_password_def hash_pw_def
          Token_deleteMany_def example_defs)
  have h2: "resetPassword any_valid cfg0 1200 reset0 ''newpass99'' db1r
      = (Inr (), db_changed\<lparr>next_id := 2\<rparr>)"
    by (simp add: resetPassword_def User_findById_def User_save_def
          User_save_unvalidated_def preSave_def isModified_password_def hash_pw_def
          Token_deleteMany_def example_defs token_service_defs)
  have h3: "verifyToken cfg0 1200 reset0 RESET_PASSWORD db1r
      = Inr \<lparr>doc_id = 1, token = reset0, user = ''u1'', type = RESET_PASSWORD,
              expires = 601000, blacklisted = False\<rparr>"
    by (simp add: example_defs token_service_defs)
  have h4: "unix 6000 < unix (add_days cfg0 5000 (refreshExpirationDays cfg0))"
    by (simp add: unix_def example_defs)
  have h5: "iat \<lparr>sub = ''u1'', iat = 1, exp = 2592001, jwt_type = REFRESH\<rparr> \<noteq> unix 5000"
    by (simp add: unix_def)
  have t0: "token0 = Signed \<lparr>sub = ''u1'', iat = 1, exp = 2592001, jwt_type = REFRESH\<rparr> ''k''"
    by (simp add: example_defs)
  have i: "uid alice_changed = ''u1''" by (simp add: example_defs)
  note th = password_change_revokes_refresh [where valid = any_valid and now = 1200
      and i = "''u1''" and cur = "''abc12345''" and new = "''newpass99''" and s = db1
      and s' = db_changed and rcfg = cfg0 and rt = reset0 and cfg = cfg0 and now' = 4000
      and ?s2.0 = db_changed and u = alice_changed and ?now1.0 = 5000 and icfg = cfg0
      and ?now2.0 = 6000, OF disjI1, OF h1]
  from th have c1: "refreshAuth cfg0 4000 token0 db_changed
       = (Inl (UnauthorizedError ''Please authenticate''), db_changed)"
    unfolding t0 by simp
  from th i h4 have c3: "\<not> isl (fst (refreshAuth cfg0 6000
        (tok (refresh (fst (generateAuthTokens cfg0 5000 alice_changed db_changed))))
        (snd (generateAuthTokens cfg0 5000 alice_changed db_changed))))"
    by auto
  from password_change_revokes_refresh [where valid = any_valid and now = 1200
      and i = "''u1''" and cur = "''abc12345''" and new = "''newpass99''" and s = db1r
      and s' = "db_changed\<lparr>next_id := 2\<rparr>" and rcfg = cfg0 and rt = reset0 and cfg = cfg0
      and now' = 4000] h2 h3
  have c4: "refreshAuth cfg0 4000 token0 (db_changed\<lparr>next_id := 2\<rparr>)
       = (Inl (UnauthorizedError ''Please authenticate''), db_changed\<lparr>next_id := 2\<rparr>)"
    unfolding t0 by auto
  from password_change_revokes_refresh [where valid = any_valid and now = 1200
      and i = "''u1''" and cur = "''abc12345''" and new = "''newpass99''" and s = db1
      and s' = db_changed and rcfg = cfg0 and rt = reset0 and cfg = cfg0 and now' = 6000
      and ?s2.0 = db_changed and u = alice_changed and ?now1.0 = 5000 and icfg = cfg0
      and ?now2.0 = 6000, OF disjI1, OF h1] i h5
  have c2': "fst (refreshAuth cfg0 6000 token0
         (snd (generateAuthTokens cfg0 5000 alice_changed db_changed)))
       = Inl (UnauthorizedError ''Please authenticate'')"
    unfolding t0 by simp
  from h1 h2 h4 h5 i c1 c2' c3 c4 show ?thesis by simp
qed

section \<open>Two rotations of one token\<close>

text \<open>Run alone, the four steps of a request are \<open>refreshAuth\<close>.\<close>

lemma refreshAuth_steps_A:
  "run_two cfg nowA nowB t [True, True, True, True] (AtVerify, b, s) =
     (Finished (fst (refreshAuth cfg nowA t s)), b, snd (refreshAuth cfg nowA t s))"
  by (simp add: refreshAuth_def split_beta split: sum.splits option.splits)

lemma refreshAuth_steps_B:
  "run_two cfg nowA nowB t [False, False, False, False] (a, AtVerify, s) =
     (a, Finished (fst (refreshAuth cfg nowB t s)), snd (refreshAuth cfg nowB t s))"
  by (simp add: refreshAuth_def split_beta split: sum.splits option.splits)

lemma run_two_append:
  "run_two cfg nowA nowB t (xs @ ys) st = run_two cfg nowA nowB t ys (run_two cfg nowA nowB t xs st)"
proof (induction xs arbitrary: st)
  case Nil
  then show ?case by simp
next
  case (Cons x xs)
  obtain a b s where st: "st = (a, b, s)" by (cases st)
  show ?case
    by (cases x) (simp_all add: st split_beta Cons.IH)
qed

text \<open>
  Once the lookup of a request has found a record whose user exists, each further step of
  the request succeeds, whatever the other request has done to the ledger: the user
  lookup reads the users, which no step writes; \<open>deleteOne\<close> raises nothing when the
  record is gone; \<open>generateAuthTokens\<close> only adds a record.
\<close>

lemma users_refreshAuth_step:
  "users (snd (refreshAuth_step cfg now t pc s)) = users s"
  by (cases pc)
     (simp_all add: deleteOne_def users_generateAuthTokens split_beta
        split: sum.splits option.splits)

lemma step_committed:
  assumes "committed (users s) pc"
  shows "committed (users s) (fst (refreshAuth_step cfg now t pc s))
       \<and> phase (fst (refreshAuth_step cfg now t pc s)) = min 4 (Suc (phase pc))"
  using assms
  by (cases pc) (auto simp: User_findById_def split_beta split: option.splits)

lemma phase_le: "phase pc \<le> 4"
  by (cases pc) simp_all

lemma run_committed:
  assumes "committed (users s) a" and "committed (users s) b"
  shows "committed (users s) (fst (run_two cfg nowA nowB t sched (a, b, s)))
       \<and> committed (users s) (fst (snd (run_two cfg nowA nowB t sched (a, b, s))))
       \<and> phase (fst (run_two cfg nowA nowB t sched (a, b, s)))
           = min 4 (phase a + length (filter (\<lambda>x. x) sched))
       \<and> phase (fst (snd (run_two cfg nowA nowB t sched (a, b, s))))
           = min 4 (phase b + length (filter (\<lambda>x. \<not> x) sched))"
  using assms
proof (induction sched arbitrary: a b s)
  case Nil
  then show ?case using phase_le [of a] phase_le [of b] by simp
next
  case (Cons x sched)
  show ?case
  proof (cases x)
    case True
    let ?a = "fst (refreshAuth_step cfg nowA t a s)"
    let ?s = "snd (refreshAuth_step cfg nowA t a s)"
    have u: "users ?s = users s" by (rule users_refreshAuth_step)
    from step_committed [OF Cons.prems(1), of cfg nowA t]
    have ca: "committed (users ?s) ?a" and pa: "phase ?a = min 4 (Suc (phase a))"
      by (simp_all add: u)
    from Cons.prems(2) have cb: "committed (users ?s) b" by (simp add: u)
    from Cons.IH [OF ca cb] pa True show ?thesis
      by (simp add: split_beta u)
  next
    case False
    let ?b = "fst (refreshAuth_step cfg nowB t b s)"
    let ?s = "snd (refreshAuth_step cfg nowB t b s)"
    have u: "users ?s = users s" by (rule users_refreshAuth_step)
    from step_committed [OF Cons.prems(2), of cfg nowB t]
    have cb: "committed (users ?s) ?b" and pb: "phase ?b = min 4 (Suc (phase b))"
      by (simp_all add: u)
    from Cons.prems(1) have ca: "committed (users ?s) a" by (simp add: u)
    from Cons.IH [OF ca cb] pb False show ?thesis
      by (simp add: split_beta u)
  qed
qed

lemma committed_succeeded:
  assumes "committed us pc" and "phase pc = 4"
  shows "succeeded pc"
  using assms by (cases pc) (auto simp: succeeded_def split: sum.splits)

lemma schedule_prefix:
  assumes "lookups_before_deletes sched"
  shows "\<exists>rest. sched = [True, False] @ rest \<or> sched = [True, True, False] @ rest
             \<or> sched = [False, True] @ rest \<or> sched = [False, False, True] @ rest"
proof -
  from assms have l: "length (takeWhile (\<lambda>x. x) sched) \<le> 2"
      "length (takeWhile (\<lambda>x. \<not> x) sched) \<le> 2"
    and c: "4 \<le> length (filter (\<lambda>x. x) sched)" "4 \<le> length (filter (\<lambda>x. \<not> x) sched)"
    by (simp_all add: lookups_before_deletes_def)
  from c(1) length_filter_le [of "\<lambda>x. x" sched] have "3 \<le> length sched" by linarith
  then obtain x y z rest where s: "sched = x # y # z # rest"
    by (auto simp: Suc_le_length_iff numeral_3_eq_3)
  show ?thesis
  proof (cases x)
    case True
    note x = True
    show ?thesis
    proof (cases y)
      case False
      with x s show ?thesis by simp
    next
      case True
      with x s l(1) have "\<not> z" by (cases z) simp_all
      with x True s show ?thesis by simp
    qed
  next
    case False
    note x = False
    show ?thesis
    proof (cases y)
      case True
      with x s show ?thesis by simp
    next
      case False
      with x s l(2) have "z" by (cases z) simp_all
      with x False s show ?thesis by simp
    qed
  qed
qed

lemma lookups_first_both_succeed:
  assumes "refreshAuth cfg nowA t s = (Inr pairA, sA)"
    and "refreshAuth cfg nowB t s = (Inr pairB, sB)"
    and "lookups_before_deletes sched"
  shows "succeeded (fst (run_two cfg nowA nowB t sched (AtVerify, AtVerify, s)))
       \<and> succeeded (fst (snd (run_two cfg nowA nowB t sched (AtVerify, AtVerify, s))))"
proof -
  from refreshAuth_InrD [OF assms(1)] obtain dA uA where
    a: "verifyToken cfg nowA t REFRESH s = Inr dA" "User_findById (user dA) s = Some uA"
    by blast
  from refreshAuth_InrD [OF assms(2)] obtain dB uB where
    b: "verifyToken cfg nowB t REFRESH s = Inr dB" "User_findById (user dB) s = Some uB"
    by blast
  from a(2) have fa: "find (\<lambda>u. uid u = user dA) (users s) \<noteq> None"
    by (simp add: User_findById_def)
  from b(2) have fb: "find (\<lambda>u. uid u = user dB) (users s) \<noteq> None"
    by (simp add: User_findById_def)
  from assms(3) have c: "4 \<le> length (filter (\<lambda>x. x) sched)"
      "4 \<le> length (filter (\<lambda>x. \<not> x) sched)"
    by (simp_all add: lookups_before_deletes_def)
  have "\<exists>pre rest a' b'. sched = pre @ rest
      \<and> run_two cfg nowA nowB t pre (AtVerify, AtVerify, s) = (a', b', s)
      \<and> committed (users s) a' \<and> committed (users s) b'
      \<and> phase a' = length (filter (\<lambda>x. x) pre)
      \<and> phase b' = length (filter (\<lambda>x. \<not> x) pre)"
  proof -
    from schedule_prefix [OF assms(3)] obtain rest where
      "sched = [True, False] @ rest \<or> sched = [True, True, False] @ rest
       \<or> sched = [False, True] @ rest \<or> sched = [False, False, True] @ rest" by blast
    then consider "sched = [True, False] @ rest" | "sched = [True, True, False] @ rest"
      | "sched = [False, True] @ rest" | "sched = [False, False, True] @ rest" by blast
    then show ?thesis
    proof cases
      case 1
      have "run_two cfg nowA nowB t [True, False] (AtVerify, AtVerify, s)
          = (AtFindUser dA, AtFindUser dB, s)"
        by (simp add: a b)
      with 1 fa fb show ?thesis by (intro exI [of _ "[True, False]"] exI [of _ rest]) simp
    next
      case 2
      have "run_two cfg nowA nowB t [True, True, False] (AtVerify, AtVerify, s)
          = (AtDelete dA uA, AtFindUser dB, s)"
        by (simp add: a b)
      with 2 fa fb show ?thesis by (intro exI [of _ "[True, True, False]"] exI [of _ rest]) simp
    next
      case 3
      have "run_two cfg nowA nowB t [False, True] (AtVerify, AtVerify, s)
          = (AtFindUser dA, AtFindUser dB, s)"
        by (simp add: a b)
      with 3 fa fb show ?thesis by (intro exI [of _ "[False, True]"] exI [of _ rest]) simp
    next
      case 4
      have "run_two cfg nowA nowB t [False, False, True] (AtVerify, AtVerify, s)
          = (AtFindUser dA, AtDelete dB uB, s)"
        by (simp add: a b)
      with 4 fa fb show ?thesis by (intro exI [of _ "[False, False, True]"] exI [of _ rest]) simp
    qed
  qed
  then obtain pre rest a' b' where
    s: "sched = pre @ rest" and
    p: "run_two cfg nowA nowB t pre (AtVerify, AtVerify, s) = (a', b', s)" and
    ca: "committed (users s) a'" and cb: "committed (users s) b'" and
    pa: "phase a' = length (filter (\<lambda>x. x) pre)" and
    pb: "phase b' = length (filter (\<lambda>x. \<not> x) pre)" by blast
  let ?r = "run_two cfg nowA nowB t rest (a', b', s)"
  have e: "run_two cfg nowA nowB t sched (AtVerify, AtVerify, s) = ?r"
    by (simp add: s run_two_append p)
  from c s pa have "4 \<le> phase a' + length (filter (\<lambda>x. x) rest)" by simp
  moreover from c s pb have "4 \<le> phase b' + length (filter (\<lambda>x. \<not> x) rest)" by simp
  ultimately have "phase (fst ?r) = 4" "phase (fst (snd ?r)) = 4"
    using run_committed [OF ca cb, of cfg nowA nowB t rest] by simp_all
  with run_committed [OF ca cb, of cfg nowA nowB t rest] show ?thesis
    unfolding e by (blast intro: committed_succeeded)
qed

lemma sequential_second_fails:
  assumes "refreshAuth cfg nowA t s = (Inr pair, s')"
    and "tok (refresh pair) \<noteq> t"
    and "length (filter (\<lambda>d. token d = t) (tokens s)) \<le> 1"
  shows "run_two cfg nowA nowB t [True, True, True, True, False, False, False, False]
           (AtVerify, AtVerify, s)
         = (Finished (Inr pair), Finished (Inl (UnauthorizedError ''Please authenticate'')), s')"
proof -
  have "\<forall>x \<in> set (tokens s'). \<not> (token x = t \<and> type x = REFRESH \<and> blacklisted x = False)"
    using rotation_removes_token [OF assms] by blast
  then have r: "refreshAuth cfg nowB t s' = (Inl (UnauthorizedError ''Please authenticate''), s')"
    by (rule refreshAuth_no_record)
  have "run_two cfg nowA nowB t ([True, True, True, True] @ [False, False, False, False])
           (AtVerify, AtVerify, s)
         = (Finished (Inr pair), Finished (Inl (UnauthorizedError ''Please authenticate'')), s')"
    unfolding run_two_append refreshAuth_steps_A assms(1) fst_conv snd_conv
      refreshAuth_steps_B r by (rule refl)
  then show ?thesis by simp
qed

text \<open>
  C2 (as the claim states it, refuted): two requests present \<open>token0\<close> on the store
  \<open>db1\<close> at clock reading 2000, and their steps alternate. Both lookups find the record
  before either request deletes it; the second \<open>deleteOne\<close> finds nothing to delete and
  raises nothing; both requests end with a new pair, and the ledger holds a record for
  each.
\<close>

theorem concurrent_rotation_both_succeed:
  "run_two cfg0 2000 2000 token0 [True, False, True, False, True, False, True, False]
     (AtVerify, AtVerify, db1)
   = (Finished (Inr pair2), Finished (Inr pair2),
      \<lparr>users = [alice],
        tokens = [\<lparr>doc_id = 1, token = token2, user = ''u1'', type = REFRESH,
                   expires = 2592002000, blacklisted = False\<rparr>,
                  \<lparr>doc_id = 2, token = token2, user = ''u1'', type = REFRESH,
                   expires = 2592002000, blacklisted = False\<rparr>],
        next_id = 3, outbox = []\<rparr>)"
  by (simp add: example_defs token_service_defs refreshAuth_defs)

text \<open>
  C2 (amended): \<open>refreshAuth\<close> performs the ledger lookup and the deletion of the record
  as separate store operations. For two requests presenting the same refresh token, each
  of which succeeds when run alone on the store: under every schedule in which both
  lookups run before the deletions and each request is given its four steps, both
  requests succeed; when the second request starts after the first has finished, the
  first issued another token string than the one presented, and the ledger held the
  presented string in at most one record, the second fails with Unauthorized.
\<close>

theorem rotation_lookup_then_delete:
  assumes "refreshAuth cfg nowA t s = (Inr pairA, sA)"
    and "refreshAuth cfg nowB t s = (Inr pairB, sB)"
  shows "(\<forall>sched. lookups_before_deletes sched \<longrightarrow>
            succeeded (fst (run_two cfg nowA nowB t sched (AtVerify, AtVerify, s)))
            \<and> succeeded (fst (snd (run_two cfg nowA nowB t sched (AtVerify, AtVerify, s)))))
       \<and> (tok (refresh pairA) \<noteq> t \<and> length (filter (\<lambda>d. token d = t) (tokens s)) \<le> 1 \<longrightarrow>
            run_two cfg nowA nowB t [True, True, True, True, False, False, False, False]
              (AtVerify, AtVerify, s)
            = (Finished (Inr pairA),
               Finished (Inl (UnauthorizedError ''Please authenticate'')), sA))"
  using lookups_first_both_succeed [OF assms] sequential_second_fails [OF assms(1), of nowB]
  by blast

theorem rotation_lookup_then_delete_witness:
  "refreshAuth cfg0 2000 token0 db1 = (Inr pair2, db2)
   \<and> tok (refresh pair2) \<noteq> token0
   \<and> length (filter (\<lambda>d. token d = token0) (tokens db1)) \<le> 1
   \<and> lookups_before_deletes [True, False, False, True, True, True, False, False]
   \<and> succeeded (fst (run_two cfg0 2000 2000 token0
        [True, False, False, True, True, True, False, False] (AtVerify, AtVerify, db1)))
   \<and> succeeded (fst (snd (run_two cfg0 2000 2000 token0
        [True, False, False, True, True, True, False, False] (AtVerify, AtVerify, db1))))
   \<and> lookups_before_deletes [True, False, True, False, True, False, True, False]
   \<and> succeeded (fst (run_two cfg0 2000 2000 token0
        [True, False, True, False, True, False, True, False] (AtVerify, AtVerify, db1)))
   \<and> succeeded (fst (snd (run_two cfg0 2000 2000 token0
        [True, False, True, False, True, False, True, False] (AtVerify, AtVerify, db1))))
   \<and> run_two cfg0 2000 2000 token0 [True, True, True, True, False, False, False, False]
        (AtVerify, AtVerify, db1)
      = (Finished (Inr pair2), Finished (Inl (UnauthorizedError ''Please authenticate'')), db2)"
proof -
  have h1: "refreshAuth cfg0 2000 token0 db1 = (Inr pair2, db2)"
    by (rule rotation_example)
  have h2: "tok (refresh pair2) \<noteq> token0"
    by (simp add: example_defs)
  have h3: "length (filter (\<lambda>d. token d = token0) (tokens db1)) \<le> 1"
    by (simp add: example_defs)
  have s1: "lookups_before_deletes [True, False, False, True, True, True, False, False]"
    by (simp add: lookups_before_deletes_def)
  have s2: "lookups_before_deletes [True, False, True, False, True, False, True, False]"
    by (simp add: lookups_before_deletes_def)
  from rotation_lookup_then_delete [OF h1 h1] h1 h2 h3 s1 s2 show ?thesis by blast
qed

end
